theory Spec2Isabelle
  imports Main "HOL-Library.Sublist"
begin

section \<open>JavaScript strings and library functions\<close>

text \<open>
  Strings are byte lists (UTF-8); the emoji markers of the result strings are their UTF-8
  bytes.  \<open>includes\<close> is substring containment.  The methods \<open>toLowerCase\<close> and \<open>trim\<close>,
  \<open>JSON.stringify(_, null, 2)\<close> and the \<open>RegExp\<close> constructor (which throws a SyntaxError
  on an invalid pattern) are JavaScript's own and not code of the server: they are
  parameters of the model, gathered in a record.
\<close>

type_synonym err = string

datatype json = JString string | JObject "(string \<times> json) list" | JArray "json list"

record js_lib =
  toLowerCase :: "string \<Rightarrow> string"
  trim :: "string \<Rightarrow> string"
  stringify :: "json \<Rightarrow> string"
  new_RegExp :: "string \<Rightarrow> err + string"

definition dq :: string where
  "dq = [CHR 0x22]"

definition sq :: string where
  "sq = [CHR 0x27]"

definition ok_mark :: string where
  "ok_mark = [CHR 0xE2, CHR 0x9C, CHR 0x85]"

definition fail_mark :: string where
  "fail_mark = [CHR 0xE2, CHR 0x9D, CHR 0x8C]"

definition camera_mark :: string where
  "camera_mark = [CHR 0xF0, CHR 0x9F, CHR 0x93, CHR 0xB8]"

definition doc_mark :: string where
  "doc_mark = [CHR 0xF0, CHR 0x9F, CHR 0x93, CHR 0x84]"

fun includes_js :: "string \<Rightarrow> string \<Rightarrow> bool" where
  "includes_js [] needle = (needle = [])"
| "includes_js (c # cs) needle = (prefix needle (c # cs) \<or> includes_js cs needle)"

section \<open>Prompt rewriting and the request handler\<close>

text \<open>
  \<open>openai.chat.completions.create\<close> is the external language model: a function from the
  user message to either an error message or the list \<open>response.choices\<close>, each choice
  carrying \<open>message.content\<close> (\<open>None\<close> for \<open>null\<close>).
\<close>

record choice =
  content :: "string option"

type_synonym completions = "string \<Rightarrow> err + choice list"

text \<open>
  \<open>rewritePrompt\<close>: the whole body is inside \<open>try\<close>; reading \<open>choices[0].message\<close> of an
  empty list is a TypeError and is caught like a failed call.
\<close>

definition rewritePrompt :: "completions \<Rightarrow> string \<Rightarrow> string option" where
  "rewritePrompt create originalPrompt =
     (case create originalPrompt of
        Inl e \<Rightarrow> Some originalPrompt
      | Inr choices \<Rightarrow>
          (case choices of
             [] \<Rightarrow> Some originalPrompt
           | c # _ \<Rightarrow> content c))"

text \<open>
  The route \<open>POST /api/ask\<close>.  \<open>run\<close> is the agent run on an instruction: an error
  message, or \<open>result.finalOutput\<close>.
\<close>

record reply =
  status :: nat
  text_of :: string
  success :: "bool option"

type_synonym agent_run = "string option \<Rightarrow> err + string option"

definition answer :: "err + string option \<Rightarrow> reply" where
  "answer r =
     (case r of
        Inl m \<Rightarrow> \<lparr>status = 500, text_of = (if m = [] then ''Agent execution failed'' else m),
                  success = Some False\<rparr>
      | Inr out \<Rightarrow>
          (case out of
             None \<Rightarrow> \<lparr>status = 500, text_of = ''No result received from agent'',
                       success = Some False\<rparr>
           | Some finalOutput \<Rightarrow>
               if finalOutput = []
               then \<lparr>status = 500, text_of = ''No result received from agent'',
                      success = Some False\<rparr>
               else \<lparr>status = 200, text_of = finalOutput, success = Some True\<rparr>))"

definition ask :: "completions \<Rightarrow> agent_run \<Rightarrow> string option \<Rightarrow> reply" where
  "ask create run prompt =
     (case prompt of
        None \<Rightarrow> \<lparr>status = 400, text_of = ''Prompt is required'', success = None\<rparr>
      | Some p \<Rightarrow>
          if p = [] then \<lparr>status = 400, text_of = ''Prompt is required'', success = None\<rparr>
          else answer (run (rewritePrompt create p)))"

section \<open>Screenshot file names\<close>

text \<open>
  \<open>new Date().toISOString().replace(/[:.]/g, '-')\<close>: every colon and every dot of the
  clock reading becomes a hyphen.  The clock reading is the string \<open>toISOString\<close> returns,
  \<open>YYYY-MM-DDTHH:mm:ss.sssZ\<close>.
\<close>

definition sanitize_char :: "char \<Rightarrow> char" where
  "sanitize_char c = (if c = CHR '':'' \<or> c = CHR ''.'' then CHR ''-'' else c)"

definition sanitize :: "string \<Rightarrow> string" where
  "sanitize stamp = map sanitize_char stamp"

definition fullFilename :: "string \<Rightarrow> string \<Rightarrow> string" where
  "fullFilename filename stamp = filename @ ''_'' @ sanitize stamp @ ''.png''"

text \<open>The shape of a clock reading: 24 characters, digits between fixed separators.\<close>

definition is_digit :: "char \<Rightarrow> bool" where
  "is_digit c = (48 \<le> (of_char c :: nat) \<and> (of_char c :: nat) \<le> 57)"

definition iso_shape :: "string" where
  "iso_shape = ''dddd-dd-ddTdd:dd:dd.dddZ''"

definition iso_char_ok :: "char \<Rightarrow> char \<Rightarrow> bool" where
  "iso_char_ok shape c = (if shape = CHR ''d'' then is_digit c else c = shape)"

definition is_iso :: "string \<Rightarrow> bool" where
  "is_iso s = list_all2 iso_char_ok iso_shape s"


section \<open>Label resolution for typing\<close>

text \<open>
  What \<open>typeByLabel\<close> extracts from every \<open>input\<close> element of the page:
  \<open>el.type\<close>, \<open>el.placeholder\<close>, \<open>el.name\<close>, \<open>el.id\<close>, \<open>el.getAttribute('aria-label')\<close>
  (\<open>None\<close> for \<open>null\<close>) and the inner text of the first associated label (or the empty
  string).
\<close>

record input_desc =
  i_type :: string
  i_placeholder :: string
  i_name :: string
  i_id :: string
  i_ariaLabel :: "string option"
  i_labelText :: string

text \<open>\<open>a && a.toLowerCase().includes(labelLower)\<close>: the empty string is falsy.\<close>

definition attr_matches :: "js_lib \<Rightarrow> string \<Rightarrow> string \<Rightarrow> bool" where
  "attr_matches js a labelLower = (a \<noteq> [] \<and> includes_js (toLowerCase js a) labelLower)"

definition matches :: "js_lib \<Rightarrow> string \<Rightarrow> input_desc \<Rightarrow> bool" where
  "matches js labelLower input =
     (attr_matches js (i_placeholder input) labelLower \<or>
      attr_matches js (i_name input) labelLower \<or>
      attr_matches js (i_id input) labelLower \<or>
      (case i_ariaLabel input of None \<Rightarrow> False | Some a \<Rightarrow> attr_matches js a labelLower) \<or>
      attr_matches js (i_labelText input) labelLower)"

text \<open>
  \<open>input.id ? `input#${input.id}` : input.name ? `input[name='${input.name}']` :
  input.placeholder ? `input[placeholder='${input.placeholder}']` : null\<close>
\<close>

definition selector_of :: "input_desc \<Rightarrow> string option" where
  "selector_of input =
     (if i_id input \<noteq> [] then Some (''input#'' @ i_id input)
      else if i_name input \<noteq> [] then Some (''input[name='' @ sq @ i_name input @ sq @ '']'')
      else if i_placeholder input \<noteq> []
        then Some (''input[placeholder='' @ sq @ i_placeholder input @ sq @ '']'')
      else None)"

definition wants_password :: "string \<Rightarrow> input_desc \<Rightarrow> bool" where
  "wants_password labelLower input =
     (includes_js labelLower ''password'' \<and> i_type input = ''password'')"

definition wants_user :: "string \<Rightarrow> input_desc \<Rightarrow> bool" where
  "wants_user labelLower input =
     ((includes_js labelLower ''user'' \<or> includes_js labelLower ''login'' \<or>
       includes_js labelLower ''id'') \<and>
      (i_type input = ''text'' \<or> i_type input = ''email''))"

text \<open>
  The \<open>for (const input of inputs)\<close> loop with its two \<open>break\<close>s; \<open>selector\<close> is the
  loop variable, \<open>None\<close> for \<open>null\<close>.
\<close>

fun scan :: "js_lib \<Rightarrow> string \<Rightarrow> string option \<Rightarrow> input_desc list \<Rightarrow> string option" where
  "scan js labelLower selector [] = selector"
| "scan js labelLower selector (input # rest) =
     (if matches js labelLower input then
        if wants_password labelLower input then selector_of input
        else if wants_user labelLower input then selector_of input
        else scan js labelLower (if selector = None then selector_of input else selector) rest
      else scan js labelLower selector rest)"

definition findSelector :: "js_lib \<Rightarrow> string \<Rightarrow> input_desc list \<Rightarrow> string option" where
  "findSelector js label inputs = scan js (toLowerCase js label) None inputs"

text \<open>The tie-break policy in the spec's words: a preferred candidate, else the first.\<close>

definition preferred :: "string \<Rightarrow> input_desc \<Rightarrow> bool" where
  "preferred labelLower input = (wants_password labelLower input \<or> wants_user labelLower input)"

definition tie_break :: "string \<Rightarrow> input_desc list \<Rightarrow> input_desc option" where
  "tie_break labelLower candidates =
     (case find (preferred labelLower) candidates of
        Some input \<Rightarrow> Some input
      | None \<Rightarrow> (case candidates of [] \<Rightarrow> None | input # _ \<Rightarrow> Some input))"

text \<open>
  The same policy when a candidate may lack a selector: a preferred candidate, else the
  first candidate that has an id, a name or a placeholder.
\<close>

definition choice :: "string \<Rightarrow> input_desc list \<Rightarrow> input_desc option" where
  "choice labelLower candidates =
     (case find (preferred labelLower) candidates of
        Some input \<Rightarrow> Some input
      | None \<Rightarrow> find (\<lambda>input. selector_of input \<noteq> None) candidates)"

section \<open>Page information\<close>

text \<open>
  The attributes of a DOM element that the \<open>$$eval\<close> callbacks read.  \<open>textContent\<close> is
  read with \<open>?.\<close>, so it may be \<open>null\<close>; \<open>labels\<close> is \<open>null\<close> for hidden inputs.
\<close>

record element =
  tagName :: string
  textContent :: "string option"
  el_value :: string
  href :: string
  el_type :: string
  placeholder :: string
  el_name :: string
  el_id :: string
  ariaLabel :: "string option"
  labels :: "string list option"

text \<open>\<open>a || b\<close> on strings.\<close>

definition or_else :: "string \<Rightarrow> string \<Rightarrow> string" where
  "or_else a b = (if a \<noteq> [] then a else b)"

text \<open>\<open>el.textContent?.trim()\<close>, the empty string standing for \<open>undefined\<close>.\<close>

definition trimmed_text :: "js_lib \<Rightarrow> element \<Rightarrow> string" where
  "trimmed_text js el = (case textContent el of None \<Rightarrow> [] | Some t \<Rightarrow> trim js t)"

record button_info =
  b_text :: string
  b_type :: string

record link_info =
  l_text :: string
  l_href :: string

definition button_of :: "js_lib \<Rightarrow> element \<Rightarrow> button_info" where
  "button_of js el =
     \<lparr>b_text = or_else (trimmed_text js el) (or_else (el_value el) ''No text''),
      b_type = toLowerCase js (tagName el)\<rparr>"

definition buttons_of :: "js_lib \<Rightarrow> element list \<Rightarrow> button_info list" where
  "buttons_of js elements = map (button_of js) (take 10 elements)"

definition link_of :: "js_lib \<Rightarrow> element \<Rightarrow> link_info" where
  "link_of js el = \<lparr>l_text = or_else (trimmed_text js el) ''No text'', l_href = href el\<rparr>"

definition links_of :: "js_lib \<Rightarrow> element list \<Rightarrow> link_info list" where
  "links_of js elements =
     filter (\<lambda>link. l_text link \<noteq> [] \<and> l_text link \<noteq> ''No text'')
       (map (link_of js) (take 10 elements))"

definition input_of :: "element \<Rightarrow> json" where
  "input_of el =
     JObject [(''type'', JString (or_else (el_type el) ''text'')),
              (''placeholder'', JString (or_else (placeholder el) [])),
              (''name'', JString (or_else (el_name el) [])),
              (''id'', JString (or_else (el_id el) []))]"

definition inputs_of :: "element list \<Rightarrow> json list" where
  "inputs_of elements = map input_of (take 10 elements)"

definition button_json :: "button_info \<Rightarrow> json" where
  "button_json b = JObject [(''text'', JString (b_text b)), (''type'', JString (b_type b))]"

definition link_json :: "link_info \<Rightarrow> json" where
  "link_json l = JObject [(''text'', JString (l_text l)), (''href'', JString (l_href l))]"

text \<open>The returned template string.\<close>

definition page_info :: "js_lib \<Rightarrow> string \<Rightarrow> string \<Rightarrow> element list \<Rightarrow> element list \<Rightarrow>
    element list \<Rightarrow> string" where
  "page_info js title url bs ls ins =
     doc_mark @ '' Page Info:'' @ [CHR 0x0A] @
     ''Title: '' @ title @ [CHR 0x0A] @
     ''URL: '' @ url @ [CHR 0x0A] @
     ''Buttons: '' @ stringify js (JArray (map button_json (buttons_of js bs))) @ [CHR 0x0A] @
     ''Links: '' @ stringify js (JArray (map link_json (links_of js ls))) @ [CHR 0x0A] @
     ''Inputs: '' @ stringify js (JArray (inputs_of ins))"

text \<open>The \<open>inputs\<close> callback of \<open>typeByLabel\<close>.\<close>

definition describe_input :: "element \<Rightarrow> input_desc" where
  "describe_input el =
     \<lparr>i_type = el_type el, i_placeholder = placeholder el, i_name = el_name el,
      i_id = el_id el, i_ariaLabel = ariaLabel el,
      i_labelText = (case labels el of None \<Rightarrow> [] | Some [] \<Rightarrow> [] | Some (l # _) \<Rightarrow> l)\<rparr>"


section \<open>The session and the automation driver\<close>

text \<open>
  The module-level variables \<open>browser\<close>, \<open>context\<close>, \<open>page\<close> start \<open>undefined\<close>, are reset
  to \<open>null\<close> and otherwise hold a driver object, identified by a number.
\<close>

datatype handle = Undefined | Null | Obj nat

fun truthy :: "handle \<Rightarrow> bool" where
  "truthy (Obj _) = True"
| "truthy _ = False"

record session =
  browser :: handle
  context_h :: handle
  page :: handle
  browserInitializing :: bool

definition initial_session :: session where
  "initial_session =
     \<lparr>browser = Undefined, context_h = Undefined, page = Undefined, browserInitializing = False\<rparr>"

text \<open>
  Every operation the server asks of Playwright, of the timer and of the clock.  The
  numbers are the objects the method is called on.
\<close>

datatype call =
    Launch
  | NewContext nat
  | NewPage nat
  | PageOn nat string
  | IsConnected nat
  | BrowserClose nat
  | ContextClose nat
  | PageClose nat
  | Goto nat string
  | WaitForTimeout nat nat
  | Title nat
  | Url nat
  | EvalAll nat string
  | WaitForSelector nat string
  | Click nat string
  | Fill nat string string
  | ClickText nat string bool
  | ClickRole nat string string
  | ClickRoleRegex nat string string
  | PressKey nat string
  | Screenshot nat string
  | Now
  | Sleep nat

text \<open>
  The driver is outside the program.  Its answer to a call is a function of the whole
  history of calls made so far, the last one being the call answered; an awaited promise
  that rejects is \<open>Inl\<close> of the error's message.
\<close>

record driver =
  d_unit :: "call list \<Rightarrow> err + unit"
  d_obj :: "call list \<Rightarrow> err + nat"
  d_str :: "call list \<Rightarrow> err + string"
  d_elems :: "call list \<Rightarrow> err + element list"
  d_bool :: "call list \<Rightarrow> bool"
  d_now :: "call list \<Rightarrow> string"

record world =
  sess :: session
  hist :: "call list"

text \<open>
  An \<open>async\<close> function run on its own: from a world to a returned value or a thrown
  error message and the world after, or \<open>None\<close> when it never settles.
\<close>

type_synonym 'a js = "world \<Rightarrow> ((err + 'a) \<times> world) option"

definition js_return :: "'a \<Rightarrow> 'a js" where
  "js_return x w = Some (Inr x, w)"

definition js_throw :: "err \<Rightarrow> 'a js" where
  "js_throw e w = Some (Inl e, w)"

definition js_bind :: "'a js \<Rightarrow> ('a \<Rightarrow> 'b js) \<Rightarrow> 'b js" where
  "js_bind m f w =
     (case m w of
        None \<Rightarrow> None
      | Some (Inl e, w') \<Rightarrow> Some (Inl e, w')
      | Some (Inr x, w') \<Rightarrow> f x w')"

definition js_try :: "'a js \<Rightarrow> (err \<Rightarrow> 'a js) \<Rightarrow> 'a js" where
  "js_try m handler w =
     (case m w of
        None \<Rightarrow> None
      | Some (Inl e, w') \<Rightarrow> handler e w'
      | Some (Inr x, w') \<Rightarrow> Some (Inr x, w'))"

definition js_finally :: "'a js \<Rightarrow> unit js \<Rightarrow> 'a js" where
  "js_finally m cleanup w =
     (case m w of
        None \<Rightarrow> None
      | Some (r, w') \<Rightarrow>
          (case cleanup w' of
             None \<Rightarrow> None
           | Some (Inl e, w'') \<Rightarrow> Some (Inl e, w'')
           | Some (Inr _, w'') \<Rightarrow> Some (r, w'')))"

definition call_unit :: "driver \<Rightarrow> call \<Rightarrow> unit js" where
  "call_unit d c w = (let h = hist w @ [c] in Some (d_unit d h, w\<lparr>hist := h\<rparr>))"

definition call_obj :: "driver \<Rightarrow> call \<Rightarrow> nat js" where
  "call_obj d c w = (let h = hist w @ [c] in Some (d_obj d h, w\<lparr>hist := h\<rparr>))"

definition call_str :: "driver \<Rightarrow> call \<Rightarrow> string js" where
  "call_str d c w = (let h = hist w @ [c] in Some (d_str d h, w\<lparr>hist := h\<rparr>))"

definition call_elems :: "driver \<Rightarrow> call \<Rightarrow> element list js" where
  "call_elems d c w = (let h = hist w @ [c] in Some (d_elems d h, w\<lparr>hist := h\<rparr>))"

definition call_bool :: "driver \<Rightarrow> call \<Rightarrow> bool js" where
  "call_bool d c w = (let h = hist w @ [c] in Some (Inr (d_bool d h), w\<lparr>hist := h\<rparr>))"

definition call_now :: "driver \<Rightarrow> string js" where
  "call_now d w = (let h = hist w @ [Now] in Some (Inr (d_now d h), w\<lparr>hist := h\<rparr>))"

text \<open>A method call on a variable that holds no object is a TypeError.\<close>

definition type_error :: err where
  "type_error = ''Cannot read properties of null''"

definition on_obj :: "handle \<Rightarrow> (nat \<Rightarrow> 'a js) \<Rightarrow> 'a js" where
  "on_obj h f = (case h of Obj n \<Rightarrow> f n | _ \<Rightarrow> js_throw type_error)"

definition modify :: "(session \<Rightarrow> session) \<Rightarrow> unit js" where
  "modify f w = Some (Inr (), w\<lparr>sess := f (sess w)\<rparr>)"

definition handles :: "unit \<Rightarrow> (handle \<times> handle \<times> handle) js" where
  "handles u w = Some (Inr (browser (sess w), context_h (sess w), page (sess w)), w)"

definition reset_handles :: "session \<Rightarrow> session" where
  "reset_handles s = s\<lparr>browser := Null, context_h := Null, page := Null\<rparr>"

subsection \<open>getBrowser\<close>

text \<open>
  \<open>while (browserInitializing) await new Promise(resolve => setTimeout(resolve, 100))\<close>,
  run with no other task to clear the flag.
\<close>

partial_function (option) poll :: "world \<Rightarrow> world option" where
  "poll w =
     (if browserInitializing (sess w) then poll (w\<lparr>hist := hist w @ [Sleep 100]\<rparr>)
      else Some w)"

declare poll.simps [code]

text \<open>\<open>browser && browser.isConnected() && context && page\<close>, evaluated left to right.\<close>

definition is_ready :: "driver \<Rightarrow> bool js" where
  "is_ready d w =
     (case browser (sess w) of
        Obj b \<Rightarrow>
          js_bind (call_bool d (IsConnected b))
            (\<lambda>connected. js_return
               (connected \<and> truthy (context_h (sess w)) \<and> truthy (page (sess w)))) w
      | _ \<Rightarrow> js_return False w)"

text \<open>\<open>if (browser) { try { await browser.close() } catch (e) { } }\<close>\<close>

definition close_stale :: "driver \<Rightarrow> unit js" where
  "close_stale d w =
     (case browser (sess w) of
        Obj b \<Rightarrow> js_try (call_unit d (BrowserClose b)) (\<lambda>e. js_return ()) w
      | _ \<Rightarrow> js_return () w)"

text \<open>The body of the \<open>try\<close> block of \<open>getBrowser\<close>.\<close>

definition launch_all :: "driver \<Rightarrow> unit js" where
  "launch_all d =
     js_bind (close_stale d) (\<lambda>_.
     js_bind (call_obj d Launch) (\<lambda>b.
     js_bind (modify (\<lambda>s. s\<lparr>browser := Obj b\<rparr>)) (\<lambda>_.
     js_bind (call_obj d (NewContext b)) (\<lambda>c.
     js_bind (modify (\<lambda>s. s\<lparr>context_h := Obj c\<rparr>)) (\<lambda>_.
     js_bind (call_obj d (NewPage c)) (\<lambda>p.
     js_bind (modify (\<lambda>s. s\<lparr>page := Obj p\<rparr>)) (\<lambda>_.
     js_bind (call_unit d (PageOn p ''console'')) (\<lambda>_.
     js_bind (call_unit d (PageOn p ''pageerror'')) (\<lambda>_.
     call_unit d (PageOn p ''close''))))))))))"

definition initialize :: "driver \<Rightarrow> unit js" where
  "initialize d =
     js_bind (modify (\<lambda>s. s\<lparr>browserInitializing := True\<rparr>)) (\<lambda>_.
       js_finally
         (js_try (launch_all d) (\<lambda>error. js_bind (modify reset_handles) (\<lambda>_. js_throw error)))
         (modify (\<lambda>s. s\<lparr>browserInitializing := False\<rparr>)))"

definition getBrowser :: "driver \<Rightarrow> (handle \<times> handle \<times> handle) js" where
  "getBrowser d w =
     (if browserInitializing (sess w) then
        (case poll w of None \<Rightarrow> None | Some w' \<Rightarrow> handles () w')
      else
        js_bind (is_ready d) (\<lambda>ready.
          if ready then handles ()
          else js_bind (initialize d) handles) w)"

subsection \<open>closeBrowser\<close>

definition close_steps :: "driver \<Rightarrow> nat \<Rightarrow> unit js" where
  "close_steps d b w =
     js_bind (case page (sess w) of Obj p \<Rightarrow> call_unit d (PageClose p) | _ \<Rightarrow> js_return ()) (\<lambda>_.
     js_bind (case context_h (sess w) of Obj c \<Rightarrow> call_unit d (ContextClose c)
              | _ \<Rightarrow> js_return ()) (\<lambda>_.
     call_unit d (BrowserClose b))) w"

definition closeBrowser :: "driver \<Rightarrow> unit js" where
  "closeBrowser d w =
     (case browser (sess w) of
        Obj b \<Rightarrow>
          js_finally
            (js_try (close_steps d b) (\<lambda>error. js_return ()))
            (modify (\<lambda>s. (reset_handles s)\<lparr>browserInitializing := False\<rparr>)) w
      | _ \<Rightarrow> js_return () w)"


section \<open>The tools\<close>

text \<open>
  Each tool is \<open>try { body } catch (error) { return failure string }\<close>.  The body is
  named \<open>_body\<close>, the prefix of the failure string \<open>_failed\<close>; logging is left out.
\<close>

subsection \<open>open_browser\<close>

definition openBrowser_body :: "driver \<Rightarrow> string js" where
  "openBrowser_body d =
     js_bind (is_ready d) (\<lambda>ready.
       if ready then js_return (ok_mark @ '' Browser is already open and ready'')
       else js_bind (getBrowser d) (\<lambda>_. js_return (ok_mark @ '' Browser opened successfully'')))"

definition openBrowser_failed :: string where
  "openBrowser_failed = fail_mark @ '' Failed to open browser: ''"

definition openBrowser :: "driver \<Rightarrow> string js" where
  "openBrowser d = js_try (openBrowser_body d) (\<lambda>error. js_return (openBrowser_failed @ error))"

subsection \<open>visit_url\<close>

definition visitUrl_body :: "driver \<Rightarrow> string \<Rightarrow> string js" where
  "visitUrl_body d url =
     js_bind (getBrowser d) (\<lambda>(_, _, page).
     js_bind (on_obj page (\<lambda>p. call_unit d (Goto p url))) (\<lambda>_.
     js_bind (on_obj page (\<lambda>p. call_unit d (WaitForTimeout p 3000))) (\<lambda>_.
     js_bind (on_obj page (\<lambda>p. call_str d (Title p))) (\<lambda>title.
     js_return (ok_mark @ '' Successfully visited '' @ url @ '' - Page Title: '' @ title)))))"

definition visitUrl_failed :: "string \<Rightarrow> string" where
  "visitUrl_failed url = fail_mark @ '' Failed to visit '' @ url @ '': ''"

definition visitUrl :: "driver \<Rightarrow> string \<Rightarrow> string js" where
  "visitUrl d url = js_try (visitUrl_body d url) (\<lambda>error. js_return (visitUrl_failed url @ error))"

subsection \<open>get_page_info\<close>

definition buttons_selector :: string where
  "buttons_selector =
     ''button, input[type='' @ dq @ ''submit'' @ dq @ ''], input[type='' @ dq @ ''button'' @ dq @ '']''"

definition getPageInfo_body :: "js_lib \<Rightarrow> driver \<Rightarrow> string js" where
  "getPageInfo_body js d =
     js_bind (getBrowser d) (\<lambda>(_, _, page).
     js_bind (on_obj page (\<lambda>p. call_str d (Title p))) (\<lambda>title.
     js_bind (on_obj page (\<lambda>p. call_str d (Url p))) (\<lambda>url.
     js_bind (on_obj page (\<lambda>p. call_elems d (EvalAll p buttons_selector))) (\<lambda>bs.
     js_bind (on_obj page (\<lambda>p. call_elems d (EvalAll p ''a''))) (\<lambda>ls.
     js_bind (on_obj page (\<lambda>p. call_elems d (EvalAll p ''input, textarea''))) (\<lambda>ins.
     js_return (page_info js title url bs ls ins)))))))"

definition getPageInfo_failed :: string where
  "getPageInfo_failed = fail_mark @ '' Failed to get page info: ''"

definition getPageInfo :: "js_lib \<Rightarrow> driver \<Rightarrow> string js" where
  "getPageInfo js d =
     js_try (getPageInfo_body js d) (\<lambda>error. js_return (getPageInfo_failed @ error))"

subsection \<open>click_element\<close>

definition clickElement_body :: "driver \<Rightarrow> string \<Rightarrow> string js" where
  "clickElement_body d selector =
     js_bind (getBrowser d) (\<lambda>(_, _, page).
     js_bind (on_obj page (\<lambda>p. call_unit d (WaitForSelector p selector))) (\<lambda>_.
     js_bind (on_obj page (\<lambda>p. call_unit d (Click p selector))) (\<lambda>_.
     js_bind (on_obj page (\<lambda>p. call_unit d (WaitForTimeout p 2000))) (\<lambda>_.
     js_return (ok_mark @ '' Successfully clicked '' @ selector)))))"

definition clickElement_failed :: "string \<Rightarrow> string" where
  "clickElement_failed selector = fail_mark @ '' Failed to click '' @ selector @ '': ''"

definition clickElement :: "driver \<Rightarrow> string \<Rightarrow> string js" where
  "clickElement d selector =
     js_try (clickElement_body d selector)
       (\<lambda>error. js_return (clickElement_failed selector @ error))"

subsection \<open>click_by_text\<close>

text \<open>
  \<open>if (!clicked) { try { await locator.click({ timeout: 5000 }); clicked = true } catch {} }\<close>;
  the first attempt has no \<open>if\<close>, \<open>clicked\<close> being \<open>false\<close> there.
\<close>

definition attempt :: "driver \<Rightarrow> handle \<Rightarrow> (nat \<Rightarrow> call) \<Rightarrow> bool \<Rightarrow> bool js" where
  "attempt d pg locator clicked =
     (if clicked then js_return True
      else js_try (js_bind (on_obj pg (\<lambda>p. call_unit d (locator p))) (\<lambda>_. js_return True))
             (\<lambda>_. js_return False))"

definition not_clickable :: "string \<Rightarrow> err" where
  "not_clickable text = ''Could not find clickable element with text: '' @ dq @ text @ dq"

definition clickByText_body :: "driver \<Rightarrow> string \<Rightarrow> string js" where
  "clickByText_body d text =
     js_bind (getBrowser d) (\<lambda>(_, _, page).
     js_bind (attempt d page (\<lambda>p. ClickText p text True) False) (\<lambda>clicked.
     js_bind (attempt d page (\<lambda>p. ClickText p text False) clicked) (\<lambda>clicked.
     js_bind (attempt d page (\<lambda>p. ClickRole p ''button'' text) clicked) (\<lambda>clicked.
     js_bind (attempt d page (\<lambda>p. ClickRole p ''link'' text) clicked) (\<lambda>clicked.
       if clicked then
         js_bind (on_obj page (\<lambda>p. call_unit d (WaitForTimeout p 2000))) (\<lambda>_.
         js_return
           (ok_mark @ '' Successfully clicked element with text: '' @ dq @ text @ dq))
       else js_throw (not_clickable text))))))"

definition clickByText_failed :: "string \<Rightarrow> string" where
  "clickByText_failed text = fail_mark @ '' Failed to click text '' @ dq @ text @ dq @ '': ''"

definition clickByText :: "driver \<Rightarrow> string \<Rightarrow> string js" where
  "clickByText d text =
     js_try (clickByText_body d text) (\<lambda>error. js_return (clickByText_failed text @ error))"

subsection \<open>type_into\<close>

definition typeInto_body :: "driver \<Rightarrow> string \<Rightarrow> string \<Rightarrow> string js" where
  "typeInto_body d selector val =
     js_bind (getBrowser d) (\<lambda>(_, _, page).
     js_bind (on_obj page (\<lambda>p. call_unit d (WaitForSelector p selector))) (\<lambda>_.
     js_bind (on_obj page (\<lambda>p. call_unit d (Fill p selector val))) (\<lambda>_.
     js_bind (on_obj page (\<lambda>p. call_unit d (WaitForTimeout p 1000))) (\<lambda>_.
     js_return
       (ok_mark @ '' Successfully typed '' @ dq @ val @ dq @ '' into '' @ selector)))))"

definition typeInto_failed :: "string \<Rightarrow> string" where
  "typeInto_failed selector = fail_mark @ '' Failed to type into '' @ selector @ '': ''"

definition typeInto :: "driver \<Rightarrow> string \<Rightarrow> string \<Rightarrow> string js" where
  "typeInto d selector val =
     js_try (typeInto_body d selector val)
       (\<lambda>error. js_return (typeInto_failed selector @ error))"

subsection \<open>type_by_label\<close>

definition typeByLabel_body :: "js_lib \<Rightarrow> driver \<Rightarrow> string \<Rightarrow> string \<Rightarrow> string js" where
  "typeByLabel_body js d label val =
     js_bind (getBrowser d) (\<lambda>(_, _, page).
     js_bind (on_obj page (\<lambda>p. call_elems d (EvalAll p ''input''))) (\<lambda>elements.
       case findSelector js label (map describe_input elements) of
         Some selector \<Rightarrow>
           js_bind (on_obj page (\<lambda>p. call_unit d (Fill p selector val))) (\<lambda>_.
           js_return
             (ok_mark @ '' Typed '' @ dq @ val @ dq @ '' into field: '' @ dq @ label @ dq))
       | None \<Rightarrow>
           js_return (fail_mark @ '' Could not find input field for: '' @ dq @ label @ dq)))"

definition typeByLabel_failed :: "string \<Rightarrow> string" where
  "typeByLabel_failed label = fail_mark @ '' Failed to type by label '' @ dq @ label @ dq @ '': ''"

definition typeByLabel :: "js_lib \<Rightarrow> driver \<Rightarrow> string \<Rightarrow> string \<Rightarrow> string js" where
  "typeByLabel js d label val =
     js_try (typeByLabel_body js d label val)
       (\<lambda>error. js_return (typeByLabel_failed label @ error))"

subsection \<open>submit_form\<close>

definition submit_selector :: string where
  "submit_selector =
     ''button[type='' @ dq @ ''submit'' @ dq @ ''], input[type='' @ dq @ ''submit'' @ dq @ '']''"

text \<open>
  \<open>buttonText\<close> is optional and nullable; \<open>if (buttonText)\<close> also skips the empty string.
  In \<open>page.getByRole('button', { name: new RegExp(buttonText, 'i') })\<close> the method is
  read off \<open>page\<close> first, then the pattern is built, which throws on an invalid pattern,
  and only then is the driver asked to click.
\<close>

definition submitForm_body :: "js_lib \<Rightarrow> driver \<Rightarrow> string option \<Rightarrow> string js" where
  "submitForm_body js d buttonText =
     js_bind (getBrowser d) (\<lambda>(_, _, page).
     js_bind
       (if buttonText \<noteq> None \<and> buttonText \<noteq> Some [] then
          on_obj page (\<lambda>p.
            case new_RegExp js (the buttonText) of
              Inl syntax_error \<Rightarrow> js_throw syntax_error
            | Inr pattern \<Rightarrow> call_unit d (ClickRoleRegex p ''button'' pattern))
        else
          js_try (on_obj page (\<lambda>p. call_unit d (Click p submit_selector)))
            (\<lambda>_. on_obj page (\<lambda>p. call_unit d (PressKey p ''Enter'')))) (\<lambda>_.
     js_bind (on_obj page (\<lambda>p. call_unit d (WaitForTimeout p 3000))) (\<lambda>_.
     js_return (ok_mark @ '' Form submitted successfully''))))"

definition submitForm_failed :: string where
  "submitForm_failed = fail_mark @ '' Failed to submit form: ''"

definition submitForm :: "js_lib \<Rightarrow> driver \<Rightarrow> string option \<Rightarrow> string js" where
  "submitForm js d buttonText =
     js_try (submitForm_body js d buttonText) (\<lambda>error. js_return (submitForm_failed @ error))"

subsection \<open>take_screenshot\<close>

text \<open>
  The file is written to \<open>path.join(screenshotsDir, fullFilename)\<close>; the call records the
  file name inside that directory.
\<close>

definition takeScreenshot_body :: "driver \<Rightarrow> string \<Rightarrow> string js" where
  "takeScreenshot_body d filename =
     js_bind (getBrowser d) (\<lambda>(_, _, page).
     js_bind (call_now d) (\<lambda>stamp.
     js_bind (on_obj page (\<lambda>p. call_unit d (Screenshot p (fullFilename filename stamp)))) (\<lambda>_.
     js_return (camera_mark @ '' Screenshot saved: '' @ fullFilename filename stamp))))"

definition takeScreenshot_failed :: string where
  "takeScreenshot_failed = fail_mark @ '' Failed to take screenshot: ''"

definition takeScreenshot :: "driver \<Rightarrow> string \<Rightarrow> string js" where
  "takeScreenshot d filename =
     js_try (takeScreenshot_body d filename)
       (\<lambda>error. js_return (takeScreenshot_failed @ error))"

subsection \<open>check_browser_status\<close>

definition not_open :: string where
  "not_open = fail_mark @ '' Browser is not open''"

definition checkBrowserStatus_body :: "driver \<Rightarrow> string js" where
  "checkBrowserStatus_body d =
     js_bind (is_ready d) (\<lambda>ready.
       if ready then
         js_bind (handles ()) (\<lambda>(_, _, page).
         js_bind (on_obj page (\<lambda>p. call_str d (Url p))) (\<lambda>url.
         js_bind (on_obj page (\<lambda>p. call_str d (Title p))) (\<lambda>title.
         js_return (ok_mark @ '' Browser is open and ready'' @ [CHR 0x0A] @
                    ''Current URL: '' @ url @ [CHR 0x0A] @ ''Page Title: '' @ title))))
       else js_return not_open)"

definition checkBrowserStatus_failed :: string where
  "checkBrowserStatus_failed = fail_mark @ '' Error checking browser status: ''"

definition checkBrowserStatus :: "driver \<Rightarrow> string js" where
  "checkBrowserStatus d =
     js_try (checkBrowserStatus_body d)
       (\<lambda>error. js_return (checkBrowserStatus_failed @ error))"

subsection \<open>close_browser\<close>

definition closed_ok :: string where
  "closed_ok = ok_mark @ '' Browser closed successfully''"

definition closeBrowserTool_body :: "driver \<Rightarrow> string js" where
  "closeBrowserTool_body d = js_bind (closeBrowser d) (\<lambda>_. js_return closed_ok)"

definition closeBrowserTool_failed :: string where
  "closeBrowserTool_failed = fail_mark @ '' Failed to close browser: ''"

definition closeBrowserTool :: "driver \<Rightarrow> string js" where
  "closeBrowserTool d =
     js_try (closeBrowserTool_body d) (\<lambda>error. js_return (closeBrowserTool_failed @ error))"

subsection \<open>The catalog\<close>

text \<open>The \<open>tools\<close> array of the agent, each entry with its validated arguments.\<close>

datatype tool_call =
    Open_browser
  | Check_browser_status
  | Visit_url string
  | Get_page_info
  | Click_by_text string
  | Click_element string
  | Type_into string string
  | Type_by_label string string
  | Take_screenshot string
  | Submit_form "string option"
  | Close_browser

fun tool_body :: "js_lib \<Rightarrow> driver \<Rightarrow> tool_call \<Rightarrow> string js" where
  "tool_body js d Open_browser = openBrowser_body d"
| "tool_body js d Check_browser_status = checkBrowserStatus_body d"
| "tool_body js d (Visit_url url) = visitUrl_body d url"
| "tool_body js d Get_page_info = getPageInfo_body js d"
| "tool_body js d (Click_by_text text) = clickByText_body d text"
| "tool_body js d (Click_element selector) = clickElement_body d selector"
| "tool_body js d (Type_into selector val) = typeInto_body d selector val"
| "tool_body js d (Type_by_label label val) = typeByLabel_body js d label val"
| "tool_body js d (Take_screenshot filename) = takeScreenshot_body d filename"
| "tool_body js d (Submit_form buttonText) = submitForm_body js d buttonText"
| "tool_body js d Close_browser = closeBrowserTool_body d"

fun tool_failed :: "tool_call \<Rightarrow> string" where
  "tool_failed Open_browser = openBrowser_failed"
| "tool_failed Check_browser_status = checkBrowserStatus_failed"
| "tool_failed (Visit_url url) = visitUrl_failed url"
| "tool_failed Get_page_info = getPageInfo_failed"
| "tool_failed (Click_by_text text) = clickByText_failed text"
| "tool_failed (Click_element selector) = clickElement_failed selector"
| "tool_failed (Type_into selector val) = typeInto_failed selector"
| "tool_failed (Type_by_label label val) = typeByLabel_failed label"
| "tool_failed (Take_screenshot filename) = takeScreenshot_failed"
| "tool_failed (Submit_form buttonText) = submitForm_failed"
| "tool_failed Close_browser = closeBrowserTool_failed"

fun execute :: "js_lib \<Rightarrow> driver \<Rightarrow> tool_call \<Rightarrow> string js" where
  "execute js d Open_browser = openBrowser d"
| "execute js d Check_browser_status = checkBrowserStatus d"
| "execute js d (Visit_url url) = visitUrl d url"
| "execute js d Get_page_info = getPageInfo js d"
| "execute js d (Click_by_text text) = clickByText d text"
| "execute js d (Click_element selector) = clickElement d selector"
| "execute js d (Type_into selector val) = typeInto d selector val"
| "execute js d (Type_by_label label val) = typeByLabel js d label val"
| "execute js d (Take_screenshot filename) = takeScreenshot d filename"
| "execute js d (Submit_form buttonText) = submitForm js d buttonText"
| "execute js d Close_browser = closeBrowserTool d"

text \<open>A run of tool calls one after the other, as the orchestration loop issues them.\<close>

fun run_tools :: "js_lib \<Rightarrow> driver \<Rightarrow> tool_call list \<Rightarrow> world \<Rightarrow>
    ((err + string) list \<times> world) option" where
  "run_tools js d [] w = Some ([], w)"
| "run_tools js d (t # ts) w =
     (case execute js d t w of
        None \<Rightarrow> None
      | Some (r, w') \<Rightarrow>
          (case run_tools js d ts w' of
             None \<Rightarrow> None
           | Some (rs, w'') \<Rightarrow> Some (r # rs, w'')))"

section \<open>Notions used to state the properties\<close>

subsection \<open>Session states\<close>

definition populated :: "session \<Rightarrow> bool" where
  "populated s = (truthy (browser s) \<and> truthy (context_h s) \<and> truthy (page s))"

definition no_handles :: "session \<Rightarrow> bool" where
  "no_handles s = (\<not> truthy (browser s) \<and> \<not> truthy (context_h s) \<and> \<not> truthy (page s))"

definition consistent :: "session \<Rightarrow> bool" where
  "consistent s = (populated s \<or> no_handles s)"

definition nulled :: "session \<Rightarrow> bool" where
  "nulled s = (browser s = Null \<and> context_h s = Null \<and> page s = Null)"

text \<open>Between two tool calls of a sequential run no acquisition is in flight.\<close>

definition idle :: "world \<Rightarrow> bool" where
  "idle w = (consistent (sess w) \<and> \<not> browserInitializing (sess w))"

text \<open>
  What \<open>browser && browser.isConnected() && context && page\<close> evaluates to in a world, and
  the world after evaluating it.
\<close>

definition ready :: "driver \<Rightarrow> world \<Rightarrow> bool" where
  "ready d w =
     (case browser (sess w) of
        Obj b \<Rightarrow> d_bool d (hist w @ [IsConnected b]) \<and> truthy (context_h (sess w)) \<and>
                 truthy (page (sess w))
      | _ \<Rightarrow> False)"

definition probed :: "world \<Rightarrow> world" where
  "probed w = (case browser (sess w) of Obj b \<Rightarrow> w\<lparr>hist := hist w @ [IsConnected b]\<rparr> | _ \<Rightarrow> w)"

subsection \<open>Computations that only talk to the driver\<close>

definition pure_io :: "'a js \<Rightarrow> bool" where
  "pure_io m = (\<forall>w. \<exists>r w'. m w = Some (r, w') \<and> sess w' = sess w \<and> prefix (hist w) (hist w'))"

definition returns :: "'a js \<Rightarrow> bool" where
  "returns m = (\<forall>w. m w \<noteq> None)"

text \<open>A tool call that ended with a string and not with a fault.\<close>

fun no_fault :: "err + string \<Rightarrow> bool" where
  "no_fault (Inr s) = True"
| "no_fault (Inl e) = False"

subsection \<open>Release\<close>

text \<open>
  The close calls \<open>closeBrowser\<close> has to make for a session with browser \<open>b\<close>, and the
  history left by making them one after the other up to the first that fails.
\<close>

definition close_plan :: "session \<Rightarrow> nat \<Rightarrow> call list" where
  "close_plan s b =
     (case page s of Obj p \<Rightarrow> [PageClose p] | _ \<Rightarrow> []) @
     (case context_h s of Obj c \<Rightarrow> [ContextClose c] | _ \<Rightarrow> []) @
     [BrowserClose b]"

fun close_until_failure :: "driver \<Rightarrow> call list \<Rightarrow> call list \<Rightarrow> call list" where
  "close_until_failure d h [] = h"
| "close_until_failure d h (c # cs) =
     (case d_unit d (h @ [c]) of
        Inl e \<Rightarrow> h @ [c]
      | Inr _ \<Rightarrow> close_until_failure d (h @ [c]) cs)"

definition released :: "session \<Rightarrow> session" where
  "released s = (reset_handles s)\<lparr>browserInitializing := False\<rparr>"

subsection \<open>Click by text, in the spec's words\<close>

text \<open>The four strategies in their order, tried until one succeeds.\<close>

definition strategies :: "nat \<Rightarrow> string \<Rightarrow> call list" where
  "strategies p text =
     [ClickText p text True, ClickText p text False,
      ClickRole p ''button'' text, ClickRole p ''link'' text]"

fun try_in_order :: "driver \<Rightarrow> call list \<Rightarrow> call list \<Rightarrow> call list \<times> bool" where
  "try_in_order d h [] = (h, False)"
| "try_in_order d h (c # cs) =
     (case d_unit d (h @ [c]) of
        Inr _ \<Rightarrow> (h @ [c], True)
      | Inl e \<Rightarrow> try_in_order d (h @ [c]) cs)"

definition clicked_message :: "string \<Rightarrow> string" where
  "clicked_message text = ok_mark @ '' Successfully clicked element with text: '' @ dq @ text @ dq"

definition click_outcome :: "driver \<Rightarrow> nat \<Rightarrow> string \<Rightarrow> call list \<Rightarrow> string \<times> call list" where
  "click_outcome d p text h =
     (case try_in_order d h (strategies p text) of
        (h', True) \<Rightarrow>
          (case d_unit d (h' @ [WaitForTimeout p 2000]) of
             Inr _ \<Rightarrow> (clicked_message text, h' @ [WaitForTimeout p 2000])
           | Inl e \<Rightarrow> (clickByText_failed text @ e, h' @ [WaitForTimeout p 2000]))
      | (h', False) \<Rightarrow> (clickByText_failed text @ not_clickable text, h'))"

subsection \<open>Type by label\<close>

text \<open>Every matching input can be addressed: it has an id, a name or a placeholder.\<close>

definition addressable :: "js_lib \<Rightarrow> string \<Rightarrow> input_desc list \<Rightarrow> bool" where
  "addressable js labelLower inputs =
     list_all (\<lambda>input. \<not> matches js labelLower input \<or> selector_of input \<noteq> None) inputs"

subsection \<open>Status check and page information\<close>

fun observes :: "call \<Rightarrow> bool" where
  "observes (IsConnected _) = True"
| "observes (Url _) = True"
| "observes (Title _) = True"
| "observes _ = False"

text \<open>A driver that hands the callbacks only the first ten elements of every query.\<close>

definition first_ten :: "driver \<Rightarrow> driver" where
  "first_ten d =
     d\<lparr>d_elems := (\<lambda>h. case d_elems d h of Inl e \<Rightarrow> Inl e | Inr es \<Rightarrow> Inr (take 10 es))\<rparr>"

subsection \<open>Screenshots written by a run\<close>

fun screenshots :: "call list \<Rightarrow> string list" where
  "screenshots [] = []"
| "screenshots (Screenshot p file # h) = file # screenshots h"
| "screenshots (c # h) = screenshots h"

definition shots_written :: "js_lib \<Rightarrow> driver \<Rightarrow> tool_call list \<Rightarrow> world \<Rightarrow>
    string list" where
  "shots_written js d ts w =
     (case run_tools js d ts w of None \<Rightarrow> [] | Some (rs, w') \<Rightarrow> screenshots (hist w'))"

section \<open>Sample pages, drivers and models\<close>

text \<open>
  A library for the sample inputs below, which are ASCII: on ASCII strings JavaScript's
  \<open>toLowerCase\<close> folds \<open>A\<close>..\<open>Z\<close> and \<open>trim\<close> strips the ASCII white space.  The sample
  \<open>stringify\<close> prints a value on one line, without quotes, and the sample \<open>RegExp\<close>
  accepts every pattern.
\<close>

definition lower_char :: "char \<Rightarrow> char" where
  "lower_char c =
     (if 65 \<le> (of_char c :: nat) \<and> (of_char c :: nat) \<le> 90
      then char_of ((of_char c :: nat) + 32) else c)"

definition is_space :: "char \<Rightarrow> bool" where
  "is_space c = (c \<in> set [CHR 0x20, CHR 0x09, CHR 0x0A, CHR 0x0B, CHR 0x0C, CHR 0x0D])"

fun plain_json :: "json \<Rightarrow> string" where
  "plain_json (JString s) = s"
| "plain_json (JObject kvs) =
     ''{'' @ concat (map (\<lambda>kv. fst kv @ '':'' @ plain_json (snd kv) @ '','') kvs) @ ''}''"
| "plain_json (JArray xs) = ''['' @ concat (map (\<lambda>x. plain_json x @ '','') xs) @ '']''"

definition ascii_lib :: js_lib where
  "ascii_lib =
     \<lparr>toLowerCase = map lower_char,
      trim = (\<lambda>s. rev (dropWhile is_space (rev (dropWhile is_space s)))),
      stringify = plain_json,
      new_RegExp = Inr\<rparr>"

text \<open>A driver on which every call succeeds; its clock stands still.\<close>

definition quiet :: driver where
  "quiet =
     \<lparr>d_unit = (\<lambda>h. Inr ()), d_obj = (\<lambda>h. Inr (length h)), d_str = (\<lambda>h. Inr ''Example''),
      d_elems = (\<lambda>h. Inr []), d_bool = (\<lambda>h. True),
      d_now = (\<lambda>h. ''2024-01-01T00:00:00.000Z'')\<rparr>"

definition fresh :: world where
  "fresh = \<lparr>sess = initial_session, hist = []\<rparr>"

definition launched :: world where
  "launched =
     \<lparr>sess = \<lparr>browser = Obj 1, context_h = Obj 2, page = Obj 3, browserInitializing = False\<rparr>,
      hist = [Launch, NewContext 1, NewPage 2, PageOn 3 ''console'', PageOn 3 ''pageerror'',
              PageOn 3 ''close'']\<rparr>"

definition open_world :: world where
  "open_world =
     \<lparr>sess = \<lparr>browser = Obj 1, context_h = Obj 2, page = Obj 3, browserInitializing = False\<rparr>,
      hist = []\<rparr>"

text \<open>Drivers on which one kind of call fails.\<close>

fun is_page_close :: "call \<Rightarrow> bool" where
  "is_page_close (PageClose _) = True"
| "is_page_close _ = False"

fun is_browser_close :: "call \<Rightarrow> bool" where
  "is_browser_close (BrowserClose _) = True"
| "is_browser_close _ = False"

fun is_click_text :: "call \<Rightarrow> bool" where
  "is_click_text (ClickText _ _ _) = True"
| "is_click_text _ = False"

fun is_locator_click :: "call \<Rightarrow> bool" where
  "is_locator_click (ClickText _ _ _) = True"
| "is_locator_click (ClickRole _ _ _) = True"
| "is_locator_click _ = False"

fun is_wait :: "call \<Rightarrow> bool" where
  "is_wait (WaitForTimeout _ _) = True"
| "is_wait _ = False"

fun is_goto :: "call \<Rightarrow> bool" where
  "is_goto (Goto _ _) = True"
| "is_goto _ = False"

definition failing_on :: "(call \<Rightarrow> bool) \<Rightarrow> driver" where
  "failing_on bad =
     quiet\<lparr>d_unit := (\<lambda>h. if h \<noteq> [] \<and> bad (last h) then Inl ''Target closed'' else Inr ())\<rparr>"

text \<open>A driver whose browser process has gone away.\<close>

definition disconnected :: driver where
  "disconnected = quiet\<lparr>d_bool := (\<lambda>h. False)\<rparr>"

text \<open>A model that is down, and an agent that answers with its instruction.\<close>

definition failing_model :: completions where
  "failing_model p = Inl ''429 rate limit''"

definition echo_agent :: agent_run where
  "echo_agent instruction = Inr instruction"

text \<open>Inputs of a login form.\<close>

definition named_input :: "string \<Rightarrow> string \<Rightarrow> input_desc" where
  "named_input t n =
     \<lparr>i_type = t, i_placeholder = [], i_name = n, i_id = [], i_ariaLabel = None,
      i_labelText = []\<rparr>"

text \<open>An input that only its \<open>aria-label\<close> identifies.\<close>

definition labelled_input :: "string \<Rightarrow> string \<Rightarrow> input_desc" where
  "labelled_input t a =
     \<lparr>i_type = t, i_placeholder = [], i_name = [], i_id = [], i_ariaLabel = Some a,
      i_labelText = []\<rparr>"

text \<open>The elements of that form, and a driver whose page holds them.\<close>

definition field :: "string \<Rightarrow> string \<Rightarrow> element" where
  "field t n =
     \<lparr>tagName = ''INPUT'', textContent = Some [], el_value = [], href = [], el_type = t,
      placeholder = [], el_name = n, el_id = [], ariaLabel = None, labels = Some []\<rparr>"

definition login_page :: driver where
  "login_page =
     quiet\<lparr>d_elems := (\<lambda>h. Inr [field ''text'' ''password_hint'',
                                   field ''password'' ''password''])\<rparr>"

text \<open>A page with twelve links.\<close>

definition anchor :: element where
  "anchor =
     \<lparr>tagName = ''A'', textContent = Some '' Next '', el_value = [], href = ''/next'',
      el_type = [], placeholder = [], el_name = [], el_id = [], ariaLabel = None,
      labels = None\<rparr>"

definition crowded :: driver where
  "crowded = quiet\<lparr>d_elems := (\<lambda>h. Inr (replicate 12 anchor))\<rparr>"

text \<open>A machine on which no browser can be launched, and the world after trying.\<close>

definition no_display :: driver where
  "no_display = quiet\<lparr>d_obj := (\<lambda>h. Inl ''Failed to launch: missing display'')\<rparr>"

definition launch_failed :: world where
  "launch_failed =
     \<lparr>sess = \<lparr>browser = Null, context_h = Null, page = Null, browserInitializing = False\<rparr>,
      hist = [Launch]\<rparr>"

section \<open>Concurrent acquisition\<close>

text \<open>
  Several calls of \<open>getBrowser\<close> overlap on the one JavaScript thread: a call runs
  without interruption up to its next \<open>await\<close>, and another call may run before the
  awaited promise settles.  A task is a call of \<open>getBrowser\<close>, its state the \<open>await\<close> it
  is suspended at.  Registering the three page listeners is synchronous and taken not
  to throw.
\<close>

datatype task =
    Called
  | Sleeping
  | Closing_stale nat
  | Launching
  | Opening_context nat
  | Opening_page nat
  | Returned "handle \<times> handle \<times> handle"
  | Threw err

text \<open>
  What can happen next: task \<open>i\<close> calls \<open>getBrowser\<close>; the timer of the sleeping task \<open>i\<close>
  fires; the driver call task \<open>i\<close> awaits settles with an error or an object; the browser
  process \<open>b\<close> goes away.
\<close>

datatype event = Call nat | Wake nat | Settle nat "err + nat" | Crash nat

text \<open>
  The shared session, the tasks, the browsers that have gone away, and the number of
  \<open>chromium.launch\<close> calls that have succeeded.
\<close>

record pool =
  shared :: session
  tasks :: "nat \<Rightarrow> task"
  dead :: "nat list"
  launches :: nat

definition handles_of :: "session \<Rightarrow> handle \<times> handle \<times> handle" where
  "handles_of s = (browser s, context_h s, page s)"

definition ready_in :: "pool \<Rightarrow> bool" where
  "ready_in s =
     (case browser (shared s) of
        Obj b \<Rightarrow> b \<notin> set (dead s) \<and> truthy (context_h (shared s)) \<and> truthy (page (shared s))
      | _ \<Rightarrow> False)"

text \<open>The \<open>catch\<close> and \<open>finally\<close> blocks of \<open>getBrowser\<close>, and the rejection.\<close>

definition failed :: "nat \<Rightarrow> err \<Rightarrow> pool \<Rightarrow> pool" where
  "failed i e s =
     s\<lparr>shared := (reset_handles (shared s))\<lparr>browserInitializing := False\<rparr>,
       tasks := (tasks s)(i := Threw e)\<rparr>"

text \<open>
  One segment of \<open>getBrowser\<close>, from the event that resumes the task to its next \<open>await\<close>
  or its return; \<open>None\<close> when the event cannot happen in the state.
\<close>

fun fire :: "event \<Rightarrow> pool \<Rightarrow> pool option" where
  "fire (Call i) s =
     (case tasks s i of
        Called \<Rightarrow>
          Some (if browserInitializing (shared s) then s\<lparr>tasks := (tasks s)(i := Sleeping)\<rparr>
                else if ready_in s
                  then s\<lparr>tasks := (tasks s)(i := Returned (handles_of (shared s)))\<rparr>
                else (case browser (shared s) of
                        Obj b \<Rightarrow> s\<lparr>shared := (shared s)\<lparr>browserInitializing := True\<rparr>,
                                   tasks := (tasks s)(i := Closing_stale b)\<rparr>
                      | _ \<Rightarrow> s\<lparr>shared := (shared s)\<lparr>browserInitializing := True\<rparr>,
                               tasks := (tasks s)(i := Launching)\<rparr>))
      | _ \<Rightarrow> None)"
| "fire (Wake i) s =
     (case tasks s i of
        Sleeping \<Rightarrow>
          Some (if browserInitializing (shared s) then s
                else s\<lparr>tasks := (tasks s)(i := Returned (handles_of (shared s)))\<rparr>)
      | _ \<Rightarrow> None)"
| "fire (Settle i r) s =
     (case tasks s i of
        Closing_stale b \<Rightarrow> Some (s\<lparr>tasks := (tasks s)(i := Launching)\<rparr>)
      | Launching \<Rightarrow>
          (case r of
             Inr b \<Rightarrow> Some (s\<lparr>shared := (shared s)\<lparr>browser := Obj b\<rparr>,
                              tasks := (tasks s)(i := Opening_context b),
                              launches := Suc (launches s)\<rparr>)
           | Inl e \<Rightarrow> Some (failed i e s))
      | Opening_context b \<Rightarrow>
          (case r of
             Inr c \<Rightarrow> Some (s\<lparr>shared := (shared s)\<lparr>context_h := Obj c\<rparr>,
                              tasks := (tasks s)(i := Opening_page c)\<rparr>)
           | Inl e \<Rightarrow> Some (failed i e s))
      | Opening_page c \<Rightarrow>
          (case r of
             Inr p \<Rightarrow>
               Some (s\<lparr>shared := (shared s)\<lparr>page := Obj p, browserInitializing := False\<rparr>,
                       tasks := (tasks s)(i := Returned
                         (handles_of ((shared s)\<lparr>page := Obj p\<rparr>)))\<rparr>)
           | Inl e \<Rightarrow> Some (failed i e s))
      | _ \<Rightarrow> None)"
| "fire (Crash b) s = Some (s\<lparr>dead := b # dead s\<rparr>)"

fun run_events :: "event list \<Rightarrow> pool \<Rightarrow> pool option" where
  "run_events [] s = Some s"
| "run_events (e # es) s =
     (case fire e s of None \<Rightarrow> None | Some s' \<Rightarrow> run_events es s')"

definition start :: pool where
  "start = \<lparr>shared = initial_session, tasks = (\<lambda>i. Called), dead = [], launches = 0\<rparr>"

text \<open>A task between setting and clearing \<open>browserInitializing\<close>.\<close>

fun in_section :: "task \<Rightarrow> bool" where
  "in_section (Closing_stale _) = True"
| "in_section Launching = True"
| "in_section (Opening_context _) = True"
| "in_section (Opening_page _) = True"
| "in_section _ = False"

text \<open>An event that is neither a failed driver call nor a lost browser.\<close>

fun fault_free :: "event \<Rightarrow> bool" where
  "fault_free (Settle i (Inl e)) = False"
| "fault_free (Crash b) = False"
| "fault_free _ = True"

text \<open>The invariants: at most one acquisition in flight, and at most one launch.\<close>

definition exclusive :: "pool \<Rightarrow> bool" where
  "exclusive s =
     ((\<forall>i j. in_section (tasks s i) \<longrightarrow> in_section (tasks s j) \<longrightarrow> i = j) \<and>
      (browserInitializing (shared s) \<longleftrightarrow> (\<exists>i. in_section (tasks s i))))"

fun task_ok :: "pool \<Rightarrow> task \<Rightarrow> bool" where
  "task_ok s Launching = (launches s = 0)"
| "task_ok s (Opening_context b) = (launches s = 1 \<and> browser (shared s) = Obj b)"
| "task_ok s (Opening_page c) =
     (launches s = 1 \<and> truthy (browser (shared s)) \<and> context_h (shared s) = Obj c)"
| "task_ok s (Closing_stale b) = False"
| "task_ok s (Returned hs) =
     (launches s = 1 \<and> populated (shared s) \<and> hs = handles_of (shared s) \<and>
      \<not> browserInitializing (shared s))"
| "task_ok s (Threw e) = False"
| "task_ok s Sleeping = (browserInitializing (shared s) \<or> launches s = 1)"
| "task_ok s Called = True"

definition once :: "pool \<Rightarrow> bool" where
  "once s =
     (dead s = [] \<and> (\<forall>i. task_ok s (tasks s i)) \<and>
      (\<not> browserInitializing (shared s) \<longrightarrow>
         (launches s = 0 \<and> no_handles (shared s)) \<or> (launches s = 1 \<and> populated (shared s))))"

text \<open>Three callers: the second arrives during the launch, the third after it.\<close>

definition three_callers :: "event list" where
  "three_callers =
     [Call 0, Call 1, Settle 0 (Inr 1), Wake 1, Settle 0 (Inr 2), Settle 0 (Inr 3), Wake 1,
      Call 2]"

text \<open>Two callers, and a launch that fails while the second one waits.\<close>

definition failed_launch :: "event list" where
  "failed_launch = [Call 0, Call 1, Settle 0 (Inl ''Failed to launch''), Wake 1]"

text \<open>What a schedule, run from the empty session, leaves behind.\<close>

definition launches_after :: "event list \<Rightarrow> nat option" where
  "launches_after es = map_option launches (run_events es start)"

definition task_after :: "event list \<Rightarrow> nat \<Rightarrow> task option" where
  "task_after es i = map_option (\<lambda>s. tasks s i) (run_events es start)"

definition session_after :: "event list \<Rightarrow> session option" where
  "session_after es = map_option shared (run_events es start)"

text \<open>The session between \<open>chromium.launch\<close> and \<open>browser.newContext\<close>.\<close>

definition mid_launch :: session where
  "mid_launch =
     \<lparr>browser = Obj 1, context_h = Undefined, page = Undefined, browserInitializing = True\<rparr>"

section \<open>The earlier entry point\<close>

text \<open>
  \<open>BE/index.js\<close> is an earlier, shorter server with the same route and eight of the
  tools.  It has no initializing flag, its tools have no \<open>try\<close>, and its screenshots carry
  no time stamp.  The functions in which it differs from the server above:
\<close>

definition getBrowser_index :: "driver \<Rightarrow> (handle \<times> handle \<times> handle) js" where
  "getBrowser_index d w =
     (if \<not> truthy (browser (sess w)) \<or> \<not> truthy (context_h (sess w)) \<or>
         \<not> truthy (page (sess w))
      then
        js_bind (call_obj d Launch) (\<lambda>b.
        js_bind (modify (\<lambda>s. s\<lparr>browser := Obj b\<rparr>)) (\<lambda>_.
        js_bind (call_obj d (NewContext b)) (\<lambda>c.
        js_bind (modify (\<lambda>s. s\<lparr>context_h := Obj c\<rparr>)) (\<lambda>_.
        js_bind (call_obj d (NewPage c)) (\<lambda>p.
        js_bind (modify (\<lambda>s. s\<lparr>page := Obj p\<rparr>)) handles))))) w
      else handles () w)"

definition closeBrowser_index :: "driver \<Rightarrow> unit js" where
  "closeBrowser_index d w =
     (case browser (sess w) of
        Obj b \<Rightarrow> js_bind (call_unit d (BrowserClose b)) (\<lambda>_. modify reset_handles) w
      | _ \<Rightarrow> js_return () w)"

definition clickElement_index :: "driver \<Rightarrow> string \<Rightarrow> string js" where
  "clickElement_index d selector =
     js_bind (getBrowser_index d) (\<lambda>(_, _, page).
     js_bind (on_obj page (\<lambda>p. call_unit d (Click p selector))) (\<lambda>_.
     js_return (ok_mark @ '' Clicked '' @ selector)))"

definition screenshot_path_index :: "string \<Rightarrow> string" where
  "screenshot_path_index filename = ''screenshots/'' @ filename @ ''.png''"

definition rewritePrompt_index :: "completions \<Rightarrow> string \<Rightarrow> err + string option" where
  "rewritePrompt_index create originalPrompt =
     (case create originalPrompt of
        Inl e \<Rightarrow> Inl e
      | Inr choices \<Rightarrow>
          (case choices of
             [] \<Rightarrow> Inl type_error
           | c # _ \<Rightarrow> Inr (content c)))"

fun is_click :: "call \<Rightarrow> bool" where
  "is_click (Click _ _) = True"
| "is_click _ = False"

section \<open>Properties of prompt rewriting\<close>

text \<open>
  Claim C8.  When the call to the language model fails, \<open>rewritePrompt\<close> returns the
  original prompt and the route runs the agent on it; when the call succeeds, the content
  of the first choice is returned and the agent runs on that.
\<close>

theorem rewritePrompt_falls_back:
  "(create p = Inl e \<longrightarrow>
      rewritePrompt create p = Some p \<and>
      (p \<noteq> [] \<longrightarrow> ask create run (Some p) = answer (run (Some p)))) \<and>
   (create p = Inr (c # cs) \<longrightarrow>
      rewritePrompt create p = content c \<and>
      (p \<noteq> [] \<longrightarrow> ask create run (Some p) = answer (run (content c))))"
  by (simp add: rewritePrompt_def ask_def)

theorem rewritePrompt_falls_back_witness:
  "failing_model ''open example.com'' = Inl ''429 rate limit'' \<and>
   ''open example.com'' \<noteq> [] \<and>
   rewritePrompt failing_model ''open example.com'' = Some ''open example.com'' \<and>
   ask failing_model echo_agent (Some ''open example.com'') =
     \<lparr>status = 200, text_of = ''open example.com'', success = Some True\<rparr>"
  using rewritePrompt_falls_back [of failing_model "''open example.com''" "''429 rate limit''"
      echo_agent]
  by (simp add: failing_model_def echo_agent_def answer_def)
section \<open>The poll loop\<close>

lemma poll_Some:
  assumes "poll w = Some w'"
  shows "\<not> browserInitializing (sess w)"
proof (rule poll.raw_induct [where P = "\<lambda>w w'. \<not> browserInitializing (sess w)", OF _ assms])
  fix f w wa
  assume IH: "\<And>x y. f x = Some y \<Longrightarrow> \<not> browserInitializing (sess x)"
    and eq: "(if browserInitializing (sess w) then f (w\<lparr>hist := hist w @ [Sleep 100]\<rparr>)
              else Some w) = Some wa"
  show "\<not> browserInitializing (sess w)"
  proof
    assume flag: "browserInitializing (sess w)"
    with eq have "f (w\<lparr>hist := hist w @ [Sleep 100]\<rparr>) = Some wa" by simp
    from IH [OF this] flag show False by simp
  qed
qed

lemma poll_waits: "browserInitializing (sess w) \<Longrightarrow> poll w = None"
  using poll_Some [of w] by (cases "poll w") auto

lemma poll_clear: "\<not> browserInitializing (sess w) \<Longrightarrow> poll w = Some w"
  by (subst poll.simps) simp

section \<open>Rules for computations that only talk to the driver\<close>

named_theorems io_intros

lemma pure_io_return [io_intros]: "pure_io (js_return x)"
  by (simp add: pure_io_def js_return_def)

lemma pure_io_throw [io_intros]: "pure_io (js_throw e)"
  by (simp add: pure_io_def js_throw_def)

lemma pure_io_call_unit [io_intros]: "pure_io (call_unit d c)"
  by (simp add: pure_io_def call_unit_def Let_def)

lemma pure_io_call_obj [io_intros]: "pure_io (call_obj d c)"
  by (simp add: pure_io_def call_obj_def Let_def)

lemma pure_io_call_str [io_intros]: "pure_io (call_str d c)"
  by (simp add: pure_io_def call_str_def Let_def)

lemma pure_io_call_elems [io_intros]: "pure_io (call_elems d c)"
  by (simp add: pure_io_def call_elems_def Let_def)

lemma pure_io_call_bool [io_intros]: "pure_io (call_bool d c)"
  by (simp add: pure_io_def call_bool_def Let_def)

lemma pure_io_call_now [io_intros]: "pure_io (call_now d)"
  by (simp add: pure_io_def call_now_def Let_def)

lemma pure_io_handles [io_intros]: "pure_io (handles u)"
  by (simp add: pure_io_def handles_def)

lemma pure_io_bind [io_intros]:
  assumes "pure_io m" and "\<And>x. pure_io (f x)"
  shows "pure_io (js_bind m f)"
  unfolding pure_io_def
proof
  fix w
  from assms(1) obtain r w1
    where m: "m w = Some (r, w1)" "sess w1 = sess w" "prefix (hist w) (hist w1)"
    unfolding pure_io_def by blast
  show "\<exists>r w'. js_bind m f w = Some (r, w') \<and> sess w' = sess w \<and> prefix (hist w) (hist w')"
  proof (cases r)
    case (Inl e)
    with m show ?thesis by (simp add: js_bind_def)
  next
    case (Inr x)
    from assms(2) [of x] obtain r' w2
      where "f x w1 = Some (r', w2)" "sess w2 = sess w1" "prefix (hist w1) (hist w2)"
      unfolding pure_io_def by blast
    with m Inr show ?thesis by (auto simp: js_bind_def intro: prefix_order.trans)
  qed
qed

lemma pure_io_try [io_intros]:
  assumes "pure_io m" and "\<And>e. pure_io (h e)"
  shows "pure_io (js_try m h)"
  unfolding pure_io_def
proof
  fix w
  from assms(1) obtain r w1
    where m: "m w = Some (r, w1)" "sess w1 = sess w" "prefix (hist w) (hist w1)"
    unfolding pure_io_def by blast
  show "\<exists>r w'. js_try m h w = Some (r, w') \<and> sess w' = sess w \<and> prefix (hist w) (hist w')"
  proof (cases r)
    case (Inr x)
    with m show ?thesis by (simp add: js_try_def)
  next
    case (Inl e)
    from assms(2) [of e] obtain r' w2
      where "h e w1 = Some (r', w2)" "sess w2 = sess w1" "prefix (hist w1) (hist w2)"
      unfolding pure_io_def by blast
    with m Inl show ?thesis by (auto simp: js_try_def intro: prefix_order.trans)
  qed
qed

lemma pure_io_on_obj [io_intros]: "(\<And>n. pure_io (f n)) \<Longrightarrow> pure_io (on_obj h f)"
  unfolding on_obj_def by (cases h) (simp_all add: pure_io_throw)

lemma pure_io_if [io_intros]: "pure_io a \<Longrightarrow> pure_io b \<Longrightarrow> pure_io (if c then a else b)"
  by simp

lemma pure_io_prod [io_intros]: "(\<And>a b. pure_io (f a b)) \<Longrightarrow> pure_io (case x of (a, b) \<Rightarrow> f a b)"
  by (cases x) simp

lemma pure_io_option [io_intros]:
  "pure_io a \<Longrightarrow> (\<And>y. pure_io (f y)) \<Longrightarrow> pure_io (case x of None \<Rightarrow> a | Some y \<Rightarrow> f y)"
  by (cases x) simp_all

lemma pure_io_sum [io_intros]:
  "(\<And>e. pure_io (f e)) \<Longrightarrow> (\<And>y. pure_io (g y)) \<Longrightarrow>
   pure_io (case x of Inl e \<Rightarrow> f e | Inr y \<Rightarrow> g y)"
  by (cases x) simp_all

lemma pure_io_attempt [io_intros]: "pure_io (attempt d pg loc clicked)"
  unfolding attempt_def by (intro io_intros)

lemma pure_io_frame:
  assumes "pure_io m"
  shows "\<exists>r w'. m w = Some (r, w') \<and> sess w' = sess w"
  using assms unfolding pure_io_def by blast

section \<open>Rules for computations that settle\<close>

named_theorems ret_intros

lemma returns_return [ret_intros]: "returns (js_return x)"
  by (simp add: returns_def js_return_def)

lemma returns_throw [ret_intros]: "returns (js_throw e)"
  by (simp add: returns_def js_throw_def)

lemma returns_modify [ret_intros]: "returns (modify f)"
  by (simp add: returns_def modify_def)

lemma returns_call_unit [ret_intros]: "returns (call_unit d c)"
  by (simp add: returns_def call_unit_def Let_def)

lemma returns_call_obj [ret_intros]: "returns (call_obj d c)"
  by (simp add: returns_def call_obj_def Let_def)

lemma returns_bind [ret_intros]:
  "returns m \<Longrightarrow> (\<And>x. returns (f x)) \<Longrightarrow> returns (js_bind m f)"
  by (auto simp: returns_def js_bind_def split: option.splits sum.splits)

lemma returns_try [ret_intros]:
  "returns m \<Longrightarrow> (\<And>e. returns (h e)) \<Longrightarrow> returns (js_try m h)"
  by (auto simp: returns_def js_try_def split: option.splits sum.splits)

lemma returns_finally [ret_intros]:
  "returns m \<Longrightarrow> returns c \<Longrightarrow> returns (js_finally m c)"
  unfolding returns_def js_finally_def
  by (auto split: option.splits sum.splits) (metis option.distinct(1))

lemma returns_close_stale [ret_intros]: "returns (close_stale d)"
  unfolding returns_def close_stale_def
  by (auto simp: js_try_def js_return_def call_unit_def Let_def split: handle.splits sum.splits)

lemma returns_launch_all [ret_intros]: "returns (launch_all d)"
  unfolding launch_all_def by (intro ret_intros)

lemma returns_initialize: "returns (initialize d)"
  unfolding initialize_def by (intro ret_intros)

section \<open>Properties of acquisition\<close>

lemma truthy_iff: "truthy h = (\<exists>n. h = Obj n)"
  by (cases h) auto

lemma populated_flag [simp]: "populated (s\<lparr>browserInitializing := f\<rparr>) = populated s"
  by (simp add: populated_def)

lemma nulled_consistent: "nulled s \<Longrightarrow> consistent s"
  by (simp add: nulled_def consistent_def no_handles_def)

lemma nulled_no_handles: "nulled s \<Longrightarrow> no_handles s"
  by (simp add: nulled_def no_handles_def)

lemma is_ready_eq: "is_ready d w = Some (Inr (ready d w), probed w)"
  by (simp add: is_ready_def ready_def probed_def js_bind_def js_return_def call_bool_def Let_def
      split: handle.splits)

lemma sess_probed [simp]: "sess (probed w) = sess w"
  by (simp add: probed_def split: handle.splits)

lemma ready_populated: "ready d w \<Longrightarrow> populated (sess w)"
  by (auto simp: ready_def populated_def split: handle.splits)

lemma close_stale_post:
  "close_stale d w = Some (r, w') \<Longrightarrow> sess w' = sess w \<and> r = Inr ()"
  by (auto simp: close_stale_def js_try_def js_return_def call_unit_def Let_def
      split: handle.splits sum.splits)

lemma launch_all_post:
  assumes "launch_all d w = Some (r, w')"
  shows "browserInitializing (sess w') = browserInitializing (sess w)"
    and "r = Inr () \<Longrightarrow> populated (sess w')"
  using assms
  by (auto simp: launch_all_def js_bind_def call_obj_def call_unit_def modify_def Let_def
      populated_def dest!: close_stale_post split: option.splits sum.splits)

lemma initialize_post:
  assumes "initialize d w = Some (r, w')"
  shows "\<not> browserInitializing (sess w')"
    and "r = Inr () \<Longrightarrow> populated (sess w')"
    and "r = Inl e \<Longrightarrow> nulled (sess w')"
  using assms
  by (auto simp: initialize_def js_bind_def modify_def js_finally_def js_try_def js_throw_def
      reset_handles_def nulled_def
      dest: launch_all_post split: option.splits sum.splits)

lemma getBrowser_waits: "browserInitializing (sess w) \<Longrightarrow> getBrowser d w = None"
  by (simp add: getBrowser_def poll_waits)

lemma getBrowser_returns:
  assumes "\<not> browserInitializing (sess w)"
  shows "getBrowser d w \<noteq> None"
proof -
  have "initialize d (probed w) \<noteq> None"
    using returns_initialize by (simp add: returns_def)
  with assms show ?thesis
    by (auto simp: getBrowser_def js_bind_def is_ready_eq handles_def split: sum.splits)
qed

lemma getBrowser_post:
  assumes "getBrowser d w = Some (r, w')"
  shows "\<not> browserInitializing (sess w')"
    and "r = Inr hs \<Longrightarrow>
           populated (sess w') \<and> hs = (browser (sess w'), context_h (sess w'), page (sess w'))"
    and "r = Inl e \<Longrightarrow> nulled (sess w')"
proof -
  from assms have clear: "\<not> browserInitializing (sess w)"
    using getBrowser_waits [of w d] by auto
  from assms clear have
    "\<not> browserInitializing (sess w') \<and>
     (r = Inr hs \<longrightarrow>
        populated (sess w') \<and> hs = (browser (sess w'), context_h (sess w'), page (sess w'))) \<and>
     (r = Inl e \<longrightarrow> nulled (sess w'))"
    by (auto simp: getBrowser_def js_bind_def is_ready_eq handles_def
        dest: initialize_post ready_populated split: if_splits option.splits sum.splits)
  then show "\<not> browserInitializing (sess w')"
    and "r = Inr hs \<Longrightarrow>
           populated (sess w') \<and> hs = (browser (sess w'), context_h (sess w'), page (sess w'))"
    and "r = Inl e \<Longrightarrow> nulled (sess w')"
    by auto
qed

lemma after_acquire:
  assumes io: "\<And>hs. pure_io (f hs)" and clear: "\<not> browserInitializing (sess w)"
  shows "\<exists>r w'. js_bind (getBrowser d) f w = Some (r, w') \<and> idle w'"
proof -
  from getBrowser_returns [OF clear, of d] obtain r1 w1 where g: "getBrowser d w = Some (r1, w1)"
    by (cases "getBrowser d w") auto
  note post = getBrowser_post [OF g]
  show ?thesis
  proof (cases r1)
    case (Inl e)
    with g post(1) post(3) [of e] show ?thesis
      by (auto simp: js_bind_def idle_def nulled_consistent)
  next
    case (Inr hs)
    from io [of hs] obtain r w2 where "f hs w1 = Some (r, w2)" "sess w2 = sess w1"
      unfolding pure_io_def by blast
    with g Inr post(1) post(2) [of hs] show ?thesis
      by (auto simp: js_bind_def idle_def consistent_def)
  qed
qed

lemma caught:
  assumes "\<exists>r w'. m w = Some (r, w') \<and> P w'"
  shows "\<exists>s w'. js_try m (\<lambda>e. js_return (g e)) w = Some (Inr s, w') \<and> P w'"
  using assms by (auto simp: js_try_def js_return_def split: sum.splits)

section \<open>What release does\<close>

lemma closeBrowser_eq:
  "closeBrowser d w =
     Some (Inr (),
       (case browser (sess w) of
          Obj b \<Rightarrow> \<lparr>sess = released (sess w),
                    hist = close_until_failure d (hist w) (close_plan (sess w) b)\<rparr>
        | _ \<Rightarrow> w))"
  by (cases "browser (sess w)"; cases "page (sess w)"; cases "context_h (sess w)")
     (auto simp: closeBrowser_def js_finally_def js_try_def js_return_def close_steps_def
       js_bind_def call_unit_def modify_def Let_def close_plan_def released_def
       split: sum.splits)

section \<open>What the status check does\<close>

lemma checkBrowserStatus_result:
  "\<exists>r cs. checkBrowserStatus d w = Some (Inr r, w\<lparr>hist := hist w @ cs\<rparr>) \<and>
     list_all observes cs \<and> (\<not> ready d w \<longrightarrow> r = not_open)"
proof (cases "ready d w")
  case False
  then show ?thesis
    by (cases "browser (sess w)")
       (auto simp: checkBrowserStatus_def checkBrowserStatus_body_def js_try_def js_bind_def
         is_ready_eq js_return_def probed_def intro: exI [where x = "[]"])
next
  case True
  then obtain b c p where "browser (sess w) = Obj b" "context_h (sess w) = Obj c"
    "page (sess w) = Obj p"
    by (auto simp: ready_def truthy_iff split: handle.splits)
  with True show ?thesis
    by (auto simp: checkBrowserStatus_def checkBrowserStatus_body_def js_try_def js_bind_def
         is_ready_eq js_return_def probed_def handles_def on_obj_def call_str_def Let_def
         split: sum.splits)
qed
section \<open>The status check leaves the session alone\<close>

text \<open>
  Claim C10.  \<open>check_browser_status\<close> always returns a string; the session after the call
  is the session before it; the only driver calls it makes are \<open>isConnected\<close>, \<open>url\<close> and
  \<open>title\<close>, so nothing is launched or closed; and whenever one of the three handles is
  missing or the browser reports itself disconnected, the string is the not-open message.
\<close>

theorem checkBrowserStatus_frame:
  "\<exists>r w' cs. checkBrowserStatus d w = Some (Inr r, w') \<and> sess w' = sess w \<and>
     hist w' = hist w @ cs \<and> list_all observes cs \<and>
     ((\<not> truthy (browser (sess w)) \<or> \<not> truthy (context_h (sess w)) \<or>
       \<not> truthy (page (sess w)) \<or>
       (\<exists>b. browser (sess w) = Obj b \<and> \<not> d_bool d (hist w @ [IsConnected b]))) \<longrightarrow>
      r = not_open)"
proof -
  from checkBrowserStatus_result [of d w] obtain r cs
    where r: "checkBrowserStatus d w = Some (Inr r, w\<lparr>hist := hist w @ cs\<rparr>)"
      "list_all observes cs" "\<not> ready d w \<longrightarrow> r = not_open"
    by blast
  have "\<not> ready d w"
    if "\<not> truthy (browser (sess w)) \<or> \<not> truthy (context_h (sess w)) \<or>
       \<not> truthy (page (sess w)) \<or>
       (\<exists>b. browser (sess w) = Obj b \<and> \<not> d_bool d (hist w @ [IsConnected b]))"
    using that by (auto simp: ready_def split: handle.splits)
  with r show ?thesis
    by (intro exI [where x = r] exI [where x = "w\<lparr>hist := hist w @ cs\<rparr>"] exI [where x = cs])
       auto
qed

theorem checkBrowserStatus_frame_witness:
  "browser (sess open_world) = Obj 1 \<and>
   \<not> d_bool disconnected (hist open_world @ [IsConnected 1]) \<and>
   map_option fst (checkBrowserStatus disconnected open_world) = Some (Inr not_open) \<and>
   map_option (sess \<circ> snd) (checkBrowserStatus disconnected open_world) = Some (sess open_world)"
proof -
  have b: "browser (sess open_world) = Obj 1"
    by (simp add: open_world_def)
  have c: "\<not> d_bool disconnected (hist open_world @ [IsConnected 1])"
    by (simp add: disconnected_def)
  from checkBrowserStatus_frame [of disconnected open_world] obtain r w'
    where eq: "checkBrowserStatus disconnected open_world = Some (Inr r, w')"
      and same: "sess w' = sess open_world"
      and imp: "(\<exists>b. browser (sess open_world) = Obj b \<and>
                  \<not> d_bool disconnected (hist open_world @ [IsConnected b])) \<longrightarrow> r = not_open"
    by blast
  from b c imp have "r = not_open"
    by blast
  with eq same b c show ?thesis
    by simp
qed

section \<open>Release under one guard\<close>

text \<open>
  Claim C6, as amended.  \<open>closeBrowser\<close> never throws.  With a browser handle present it
  closes the page (if any), then the context (if any), then the browser, inside one guard:
  the calls are made in this order up to the first one that fails, whose error is
  swallowed; whatever happened, the three handles are then \<open>null\<close> and the initializing
  flag is cleared.  With no browser handle present it does nothing.
\<close>

theorem closeBrowser_single_guard:
  "closeBrowser d w =
     Some (Inr (),
       (case browser (sess w) of
          Obj b \<Rightarrow> \<lparr>sess = released (sess w),
                    hist = close_until_failure d (hist w) (close_plan (sess w) b)\<rparr>
        | _ \<Rightarrow> w)) \<and>
   nulled (released (sess w)) \<and> \<not> browserInitializing (released (sess w))"
  by (simp add: closeBrowser_eq released_def reset_handles_def nulled_def)

theorem closeBrowser_single_guard_witness:
  "closeBrowser quiet open_world =
     Some (Inr (),
       \<lparr>sess = \<lparr>browser = Null, context_h = Null, page = Null, browserInitializing = False\<rparr>,
        hist = [PageClose 3, ContextClose 2, BrowserClose 1]\<rparr>)"
proof -
  have "(case browser (sess open_world) of
          Obj b \<Rightarrow> \<lparr>sess = released (sess open_world),
                    hist = close_until_failure quiet (hist open_world)
                      (close_plan (sess open_world) b)\<rparr>
        | _ \<Rightarrow> open_world) =
     \<lparr>sess = \<lparr>browser = Null, context_h = Null, page = Null, browserInitializing = False\<rparr>,
        hist = [PageClose 3, ContextClose 2, BrowserClose 1]\<rparr>"
    by (simp add: open_world_def released_def reset_handles_def close_plan_def quiet_def)
  with closeBrowser_single_guard [of quiet open_world] show ?thesis
    by simp
qed

text \<open>
  Claim C6 as stated fails: when closing the page throws, the context and the browser
  are not closed.
\<close>

theorem page_close_failure_skips_the_rest:
  "closeBrowser (failing_on is_page_close) open_world =
     Some (Inr (),
       \<lparr>sess = \<lparr>browser = Null, context_h = Null, page = Null, browserInitializing = False\<rparr>,
        hist = [PageClose 3]\<rparr>)"
  by code_simp

section \<open>The order of the click strategies\<close>

lemma try_in_order_take: "\<exists>n. fst (try_in_order d h cs) = h @ take n cs"
proof (induction cs arbitrary: h)
  case Nil
  then show ?case by simp
next
  case (Cons c cs)
  show ?case
  proof (cases "d_unit d (h @ [c])")
    case (Inr u)
    then show ?thesis by (auto intro: exI [where x = 1])
  next
    case (Inl e)
    from Cons [of "h @ [c]"] obtain n where "fst (try_in_order d (h @ [c]) cs) = (h @ [c]) @ take n cs"
      by blast
    with Inl show ?thesis by (auto intro: exI [where x = "Suc n"])
  qed
qed

lemma try_in_order_exhausted:
  "\<not> snd (try_in_order d h cs) \<Longrightarrow> fst (try_in_order d h cs) = h @ cs"
  by (induction cs arbitrary: h) (auto split: sum.splits)

lemma try_in_order_failed:
  "\<not> snd (try_in_order d h cs) \<Longrightarrow> n < length cs \<Longrightarrow>
   isl (d_unit d (h @ take (Suc n) cs))"
proof (induction cs arbitrary: h n)
  case Nil
  then show ?case by simp
next
  case (Cons c cs)
  show ?case
  proof (cases n)
    case 0
    with Cons.prems show ?thesis by (auto split: sum.splits)
  next
    case (Suc m)
    with Cons.prems Cons.IH [of "h @ [c]" m] show ?thesis
      by (auto split: sum.splits)
  qed
qed

lemma try_in_order_succeeded:
  "snd (try_in_order d h cs) \<Longrightarrow> d_unit d (fst (try_in_order d h cs)) = Inr ()"
  by (induction cs arbitrary: h) (auto split: sum.splits)

lemma click_outcome_exhausted:
  assumes "\<not> snd (try_in_order d h (strategies p text))"
  shows "click_outcome d p text h =
     (clickByText_failed text @ not_clickable text, h @ strategies p text)"
  using assms try_in_order_exhausted [OF assms]
  by (cases "try_in_order d h (strategies p text)") (simp add: click_outcome_def)

lemma click_outcome_clicked:
  assumes "snd (try_in_order d h (strategies p text))"
  shows "click_outcome d p text h =
     (case d_unit d (fst (try_in_order d h (strategies p text)) @ [WaitForTimeout p 2000]) of
        Inr _ \<Rightarrow> clicked_message text
      | Inl e \<Rightarrow> clickByText_failed text @ e,
      fst (try_in_order d h (strategies p text)) @ [WaitForTimeout p 2000])"
  using assms
  by (cases "try_in_order d h (strategies p text)")
     (simp add: click_outcome_def split: sum.splits)

lemma clickByText_eq:
  assumes "getBrowser d w = Some (Inr (b, c, Obj p), w1)"
  shows "clickByText d text w =
     Some (Inr (fst (click_outcome d p text (hist w1))),
           w1\<lparr>hist := snd (click_outcome d p text (hist w1))\<rparr>)"
  using assms
  by (simp add: clickByText_def clickByText_body_def js_try_def js_bind_def attempt_def
      on_obj_def call_unit_def js_return_def js_throw_def Let_def click_outcome_def
      strategies_def clicked_message_def split: sum.splits)

text \<open>
  Claim C4, as amended.  When the page cannot be acquired, \<open>click_by_text\<close> returns the
  failure string with the acquisition error and tries nothing.  Once the page is
  acquired, it behaves as trying the four strategies in their order (exact text, partial
  text, role button, role link) until one succeeds: the calls made are a prefix of the
  four, ending with the first that succeeds; each failure before it is swallowed.  After
  a success the tool waits two seconds; it returns the success string when that wait
  completes and the failure string with the wait's message when the wait throws.  When
  all four strategies fail it returns the failure string with the no-clickable-element
  message.
\<close>

theorem clickByText_in_order:
  "(getBrowser d w = Some (Inr (b, c, Obj p), w1) \<longrightarrow>
      clickByText d text w =
        Some (Inr (fst (click_outcome d p text (hist w1))),
              w1\<lparr>hist := snd (click_outcome d p text (hist w1))\<rparr>) \<and>
      (\<exists>n. fst (try_in_order d (hist w1) (strategies p text)) =
         hist w1 @ take n (strategies p text))) \<and>
   (getBrowser d w = Some (Inr (b, c, pg), w1) \<longrightarrow> truthy pg) \<and>
   (getBrowser d w = Some (Inl e, w1) \<longrightarrow>
      clickByText d text w = Some (Inr (clickByText_failed text @ e), w1)) \<and>
   (snd (try_in_order d h (strategies p text)) \<longrightarrow>
      d_unit d (fst (try_in_order d h (strategies p text))) = Inr () \<and>
      click_outcome d p text h =
        (case d_unit d (fst (try_in_order d h (strategies p text)) @
                 [WaitForTimeout p 2000]) of
           Inr _ \<Rightarrow> clicked_message text
         | Inl e \<Rightarrow> clickByText_failed text @ e,
         fst (try_in_order d h (strategies p text)) @ [WaitForTimeout p 2000])) \<and>
   (\<not> snd (try_in_order d h (strategies p text)) \<longrightarrow>
      (\<forall>n < 4. isl (d_unit d (h @ take (Suc n) (strategies p text)))) \<and>
      click_outcome d p text h =
        (clickByText_failed text @ not_clickable text, h @ strategies p text)) \<and>
   strategies p text =
     [ClickText p text True, ClickText p text False,
      ClickRole p ''button'' text, ClickRole p ''link'' text]"
proof -
  have "truthy pg" if "getBrowser d w = Some (Inr (b, c, pg), w1)"
    using getBrowser_post(2) [OF that, of "(b, c, pg)"] by (simp add: populated_def)
  moreover have "clickByText d text w = Some (Inr (clickByText_failed text @ e), w1)"
    if "getBrowser d w = Some (Inl e, w1)"
    using that by (simp add: clickByText_def clickByText_body_def js_try_def js_bind_def
        js_return_def)
  moreover have "\<forall>n < 4. isl (d_unit d (h @ take (Suc n) (strategies p text)))"
    if "\<not> snd (try_in_order d h (strategies p text))"
    using try_in_order_failed [OF that] by (simp add: strategies_def)
  moreover have "strategies p text =
     [ClickText p text True, ClickText p text False,
      ClickRole p ''button'' text, ClickRole p ''link'' text]"
    by (simp add: strategies_def)
  ultimately show ?thesis
    using clickByText_eq [of d w b c p w1 "text"] try_in_order_take [of d "hist w1"]
      try_in_order_succeeded [of d h "strategies p text"]
      click_outcome_clicked [of d h p "text"] click_outcome_exhausted [of d h p "text"]
    by blast
qed

theorem clickByText_in_order_witness:
  "getBrowser quiet fresh = Some (Inr (Obj 1, Obj 2, Obj 3), launched) \<and>
   clickByText quiet ''Submit'' fresh =
     Some (Inr (clicked_message ''Submit''),
           launched\<lparr>hist := hist launched @
             [ClickText 3 ''Submit'' True, WaitForTimeout 3 2000]\<rparr>) \<and>
   getBrowser no_display fresh = Some (Inl ''Failed to launch: missing display'', launch_failed) \<and>
   clickByText no_display ''Submit'' fresh =
     Some (Inr (clickByText_failed ''Submit'' @ ''Failed to launch: missing display''),
           launch_failed) \<and>
   getBrowser (failing_on is_locator_click) open_world =
     Some (Inr (Obj 1, Obj 2, Obj 3), open_world\<lparr>hist := [IsConnected 1]\<rparr>) \<and>
   \<not> snd (try_in_order (failing_on is_locator_click) [IsConnected 1] (strategies 3 ''Go'')) \<and>
   clickByText (failing_on is_locator_click) ''Go'' open_world =
     Some (Inr (clickByText_failed ''Go'' @ not_clickable ''Go''),
           open_world\<lparr>hist := [IsConnected 1, ClickText 3 ''Go'' True, ClickText 3 ''Go'' False,
             ClickRole 3 ''button'' ''Go'', ClickRole 3 ''link'' ''Go'']\<rparr>)"
proof -
  have g: "getBrowser quiet fresh = Some (Inr (Obj 1, Obj 2, Obj 3), launched)"
    by code_simp
  have o: "click_outcome quiet 3 ''Submit'' (hist launched) =
     (clicked_message ''Submit'',
      hist launched @ [ClickText 3 ''Submit'' True, WaitForTimeout 3 2000])"
    by (simp add: click_outcome_def strategies_def quiet_def)
  from clickByText_in_order [of quiet fresh "Obj 1" "Obj 2" 3 launched "''Submit''"] g
  have "clickByText quiet ''Submit'' fresh =
        Some (Inr (fst (click_outcome quiet 3 ''Submit'' (hist launched))),
              launched\<lparr>hist := snd (click_outcome quiet 3 ''Submit'' (hist launched))\<rparr>)"
    by blast
  with o have first: "clickByText quiet ''Submit'' fresh =
     Some (Inr (clicked_message ''Submit''),
           launched\<lparr>hist := hist launched @
             [ClickText 3 ''Submit'' True, WaitForTimeout 3 2000]\<rparr>)"
    by simp
  have n: "getBrowser no_display fresh =
      Some (Inl ''Failed to launch: missing display'', launch_failed)"
    by code_simp
  from clickByText_in_order [of no_display fresh _ _ _ launch_failed "''Submit''" _
      "''Failed to launch: missing display''"] n
  have second: "clickByText no_display ''Submit'' fresh =
     Some (Inr (clickByText_failed ''Submit'' @ ''Failed to launch: missing display''),
           launch_failed)"
    by blast
  have k: "getBrowser (failing_on is_locator_click) open_world =
     Some (Inr (Obj 1, Obj 2, Obj 3), open_world\<lparr>hist := [IsConnected 1]\<rparr>)"
    by code_simp
  have x: "\<not> snd (try_in_order (failing_on is_locator_click) [IsConnected 1]
      (strategies 3 ''Go''))"
    by code_simp
  note inst = clickByText_in_order [of "failing_on is_locator_click" open_world "Obj 1" "Obj 2" 3
      "open_world\<lparr>hist := [IsConnected 1]\<rparr>" "''Go''" _ _ "[IsConnected 1]"]
  from inst x
  have "click_outcome (failing_on is_locator_click) 3 ''Go'' [IsConnected 1] =
      (clickByText_failed ''Go'' @ not_clickable ''Go'', [IsConnected 1] @ strategies 3 ''Go'')"
    by blast
  moreover from inst k
  have "clickByText (failing_on is_locator_click) ''Go'' open_world =
        Some (Inr (fst (click_outcome (failing_on is_locator_click) 3 ''Go''
                     (hist (open_world\<lparr>hist := [IsConnected 1]\<rparr>)))),
              open_world\<lparr>hist := [IsConnected 1]\<rparr>
                \<lparr>hist := snd (click_outcome (failing_on is_locator_click) 3 ''Go''
                     (hist (open_world\<lparr>hist := [IsConnected 1]\<rparr>)))\<rparr>)"
    by blast
  ultimately have third: "clickByText (failing_on is_locator_click) ''Go'' open_world =
     Some (Inr (clickByText_failed ''Go'' @ not_clickable ''Go''),
           open_world\<lparr>hist := [IsConnected 1, ClickText 3 ''Go'' True, ClickText 3 ''Go'' False,
             ClickRole 3 ''button'' ''Go'', ClickRole 3 ''link'' ''Go'']\<rparr>)"
    by (simp add: strategies_def)
  from g first n second k x third show ?thesis
    by blast
qed

text \<open>
  Claim C4 as stated fails: the exact-text click succeeds, the settle wait that follows
  is rejected, and the tool returns its failure string.
\<close>

theorem settle_wait_failure_after_click:
  "d_unit (failing_on is_wait) [IsConnected 1, ClickText 3 ''Go'' True] = Inr () \<and>
   d_unit (failing_on is_wait) [IsConnected 1, ClickText 3 ''Go'' True, WaitForTimeout 3 2000] =
     Inl ''Target closed'' \<and>
   clickByText (failing_on is_wait) ''Go'' open_world =
     Some (Inr (clickByText_failed ''Go'' @ ''Target closed''),
           open_world\<lparr>hist := [IsConnected 1, ClickText 3 ''Go'' True,
                                 WaitForTimeout 3 2000]\<rparr>)"
  by code_simp
section \<open>Properties of screenshot file names\<close>

lemma sanitize_char_shape:
  "iso_char_ok x c \<Longrightarrow> iso_char_ok x c' \<Longrightarrow> sanitize_char c = sanitize_char c' \<Longrightarrow> c = c'"
  by (auto simp: iso_char_ok_def sanitize_char_def is_digit_def split: if_splits)

lemma sanitize_shape_inj:
  "list_all2 iso_char_ok sh a \<Longrightarrow> list_all2 iso_char_ok sh b \<Longrightarrow>
   map sanitize_char a = map sanitize_char b \<Longrightarrow> a = b"
proof (induction sh arbitrary: a b)
  case Nil
  then show ?case by simp
next
  case (Cons x sh)
  then obtain c a' c' b' where "a = c # a'" "b = c' # b'"
    by (auto simp: list_all2_Cons1)
  with Cons show ?case
    by (auto dest: sanitize_char_shape)
qed

lemma takeScreenshot_eq:
  assumes "getBrowser d w = Some (Inr (b, c, Obj p), wa)"
  shows "takeScreenshot d filename w =
     Some (Inr (case d_unit d (hist wa @
                   [Now, Screenshot p (fullFilename filename (d_now d (hist wa @ [Now])))]) of
                  Inl e \<Rightarrow> takeScreenshot_failed @ e
                | Inr _ \<Rightarrow> camera_mark @ '' Screenshot saved: '' @
                           fullFilename filename (d_now d (hist wa @ [Now]))),
           wa\<lparr>hist := hist wa @
             [Now, Screenshot p (fullFilename filename (d_now d (hist wa @ [Now])))]\<rparr>)"
  using assms
  by (simp add: takeScreenshot_def takeScreenshot_body_def js_try_def js_bind_def on_obj_def
      call_now_def call_unit_def js_return_def Let_def split: sum.splits)

text \<open>
  Claim C7, as amended.  The file name is the requested name, an underscore, the clock
  reading with colons and dots replaced, and \<open>.png\<close>; two calls with the same requested
  name get the same file name exactly when their clock readings, which have millisecond
  resolution, are the same.  Once the page is acquired, \<open>take_screenshot\<close> reads the clock
  and asks the driver to write the screenshot under the name built from that reading.
\<close>

theorem screenshot_names_distinct_iff:
  assumes "is_iso t1" and "is_iso t2"
  shows "fullFilename filename t1 = filename @ ''_'' @ sanitize t1 @ ''.png'' \<and>
    (fullFilename filename t1 = fullFilename filename t2 \<longleftrightarrow> t1 = t2) \<and>
    (getBrowser d w = Some (Inr (b, c, Obj p), wa) \<longrightarrow>
     takeScreenshot d filename w =
       Some (Inr (case d_unit d (hist wa @
                     [Now, Screenshot p (fullFilename filename (d_now d (hist wa @ [Now])))]) of
                    Inl e \<Rightarrow> takeScreenshot_failed @ e
                  | Inr _ \<Rightarrow> camera_mark @ '' Screenshot saved: '' @
                             fullFilename filename (d_now d (hist wa @ [Now]))),
             wa\<lparr>hist := hist wa @
               [Now, Screenshot p (fullFilename filename (d_now d (hist wa @ [Now])))]\<rparr>))"
proof -
  have "t1 = t2" if "fullFilename filename t1 = fullFilename filename t2"
  proof -
    from that have "sanitize t1 = sanitize t2"
      by (simp add: fullFilename_def)
    with assms show "t1 = t2"
      unfolding is_iso_def sanitize_def by (rule sanitize_shape_inj)
  qed
  then have "fullFilename filename t1 = fullFilename filename t2 \<longleftrightarrow> t1 = t2"
    by blast
  moreover have "fullFilename filename t1 = filename @ ''_'' @ sanitize t1 @ ''.png''"
    by (simp add: fullFilename_def)
  ultimately show ?thesis
    using takeScreenshot_eq [of d w b c p wa filename] by blast
qed

theorem screenshot_names_distinct_iff_witness:
  "is_iso ''2024-01-01T00:00:00.000Z'' \<and> is_iso ''2024-01-01T00:00:00.001Z'' \<and>
   fullFilename ''step'' ''2024-01-01T00:00:00.000Z'' = ''step_2024-01-01T00-00-00-000Z.png'' \<and>
   fullFilename ''step'' ''2024-01-01T00:00:00.000Z'' \<noteq>
     fullFilename ''step'' ''2024-01-01T00:00:00.001Z'' \<and>
   getBrowser quiet fresh = Some (Inr (Obj 1, Obj 2, Obj 3), launched) \<and>
   takeScreenshot quiet ''step'' fresh =
     Some (Inr (camera_mark @ '' Screenshot saved: step_2024-01-01T00-00-00-000Z.png''),
           launched\<lparr>hist := hist launched @
             [Now, Screenshot 3 ''step_2024-01-01T00-00-00-000Z.png'']\<rparr>)"
proof -
  have a: "is_iso ''2024-01-01T00:00:00.000Z''"
    by (simp add: is_iso_def iso_shape_def iso_char_ok_def is_digit_def)
  have b: "is_iso ''2024-01-01T00:00:00.001Z''"
    by (simp add: is_iso_def iso_shape_def iso_char_ok_def is_digit_def)
  have g: "getBrowser quiet fresh = Some (Inr (Obj 1, Obj 2, Obj 3), launched)"
    by code_simp
  note inst = screenshot_names_distinct_iff [OF a b, where filename = "''step''" and d = quiet
      and w = fresh and b = "Obj 1" and c = "Obj 2" and p = 3 and wa = launched]
  have ne: "''2024-01-01T00:00:00.000Z'' \<noteq> ''2024-01-01T00:00:00.001Z''"
    by simp
  from inst have "fullFilename ''step'' ''2024-01-01T00:00:00.000Z'' =
      ''step'' @ ''_'' @ sanitize ''2024-01-01T00:00:00.000Z'' @ ''.png''"
    by blast
  also have "\<dots> = ''step_2024-01-01T00-00-00-000Z.png''"
    by (simp add: sanitize_def sanitize_char_def)
  finally have name: "fullFilename ''step'' ''2024-01-01T00:00:00.000Z'' =
      ''step_2024-01-01T00-00-00-000Z.png''" .
  from inst ne have differ: "fullFilename ''step'' ''2024-01-01T00:00:00.000Z'' \<noteq>
      fullFilename ''step'' ''2024-01-01T00:00:00.001Z''"
    by blast
  from inst g have "takeScreenshot quiet ''step'' fresh =
       Some (Inr (case d_unit quiet (hist launched @
                     [Now, Screenshot 3 (fullFilename ''step''
                        (d_now quiet (hist launched @ [Now])))]) of
                    Inl e \<Rightarrow> takeScreenshot_failed @ e
                  | Inr _ \<Rightarrow> camera_mark @ '' Screenshot saved: '' @
                             fullFilename ''step'' (d_now quiet (hist launched @ [Now]))),
             launched\<lparr>hist := hist launched @
               [Now, Screenshot 3 (fullFilename ''step''
                  (d_now quiet (hist launched @ [Now])))]\<rparr>)"
    by blast
  then have tool: "takeScreenshot quiet ''step'' fresh =
     Some (Inr (camera_mark @ '' Screenshot saved: step_2024-01-01T00-00-00-000Z.png''),
           launched\<lparr>hist := hist launched @
             [Now, Screenshot 3 ''step_2024-01-01T00-00-00-000Z.png'']\<rparr>)"
    by (simp add: quiet_def name)
  from a b name differ g tool show ?thesis
    by blast
qed

text \<open>
  Claim C7 as stated fails: two \<open>take_screenshot\<close> calls for \<open>step\<close> whose clock readings
  fall in the same millisecond write to the same file.
\<close>

theorem same_millisecond_same_file:
  "shots_written ascii_lib quiet [Take_screenshot ''step'', Take_screenshot ''step''] fresh =
     [''step_2024-01-01T00-00-00-000Z.png'', ''step_2024-01-01T00-00-00-000Z.png'']"
  by code_simp
section \<open>Properties of label resolution\<close>

lemma scan_tie_break:
  assumes "\<forall>i\<in>set inputs. matches js ll i \<longrightarrow> selector_of i \<noteq> None"
  shows "scan js ll acc inputs =
     (case find (preferred ll) (filter (matches js ll) inputs) of
        Some i \<Rightarrow> selector_of i
      | None \<Rightarrow>
          (case acc of
             Some s \<Rightarrow> Some s
           | None \<Rightarrow>
               (case filter (matches js ll) inputs of [] \<Rightarrow> None | i # _ \<Rightarrow> selector_of i)))"
  using assms
proof (induction inputs arbitrary: acc)
  case Nil
  then show ?case by (simp split: option.splits)
next
  case (Cons i inputs)
  then show ?case
    by (cases acc) (auto simp: preferred_def split: option.splits list.splits)
qed

lemma findSelector_tie_break:
  assumes "addressable js (toLowerCase js label) inputs"
  shows "findSelector js label inputs =
     (case tie_break (toLowerCase js label) (filter (matches js (toLowerCase js label)) inputs) of
        None \<Rightarrow> None
      | Some input \<Rightarrow> selector_of input)"
  using assms scan_tie_break [of inputs js "toLowerCase js label" None]
  by (auto simp: findSelector_def tie_break_def addressable_def list_all_iff
      split: option.splits list.splits)

lemma typeByLabel_eq:
  assumes "getBrowser d w = Some (Inr (b, c, Obj p), w1)"
    and "d_elems d (hist w1 @ [EvalAll p ''input'']) = Inr els"
  shows "typeByLabel js d label val w =
     (case findSelector js label (map describe_input els) of
        None \<Rightarrow>
          Some (Inr (fail_mark @ '' Could not find input field for: '' @ dq @ label @ dq),
                w1\<lparr>hist := hist w1 @ [EvalAll p ''input'']\<rparr>)
      | Some selector \<Rightarrow>
          Some (Inr (case d_unit d (hist w1 @ [EvalAll p ''input'', Fill p selector val]) of
                       Inl e \<Rightarrow> typeByLabel_failed label @ e
                     | Inr _ \<Rightarrow> ok_mark @ '' Typed '' @ dq @ val @ dq @ '' into field: '' @
                                dq @ label @ dq),
                w1\<lparr>hist := hist w1 @ [EvalAll p ''input'', Fill p selector val]\<rparr>))"
  using assms
  by (simp add: typeByLabel_def typeByLabel_body_def js_try_def js_bind_def on_obj_def
      call_elems_def call_unit_def js_return_def Let_def split: option.splits sum.splits)

lemma scan_choice:
  "scan js ll acc inputs =
     (case find (preferred ll) (filter (matches js ll) inputs) of
        Some i \<Rightarrow> selector_of i
      | None \<Rightarrow>
          (case acc of
             Some s \<Rightarrow> Some s
           | None \<Rightarrow>
               (case find (\<lambda>i. selector_of i \<noteq> None) (filter (matches js ll) inputs) of
                  None \<Rightarrow> None
                | Some i \<Rightarrow> selector_of i)))"
proof (induction inputs arbitrary: acc)
  case Nil
  then show ?case by (simp split: option.splits)
next
  case (Cons i inputs)
  then show ?case
    by (cases acc) (auto simp: preferred_def split: option.splits)
qed

lemma findSelector_choice:
  "findSelector js label inputs =
     (case choice (toLowerCase js label) (filter (matches js (toLowerCase js label)) inputs) of
        None \<Rightarrow> None
      | Some input \<Rightarrow> selector_of input)"
  by (simp add: findSelector_def choice_def scan_choice split: option.splits)

lemma includes_js_sublist: "includes_js s needle \<longleftrightarrow> sublist needle s"
  by (induction s) (simp_all add: sublist_Cons_right)

lemma matches_iff:
  "matches js ll input \<longleftrightarrow>
     (i_placeholder input \<noteq> [] \<and> sublist ll (toLowerCase js (i_placeholder input))) \<or>
     (i_name input \<noteq> [] \<and> sublist ll (toLowerCase js (i_name input))) \<or>
     (i_id input \<noteq> [] \<and> sublist ll (toLowerCase js (i_id input))) \<or>
     (\<exists>a. i_ariaLabel input = Some a \<and> a \<noteq> [] \<and> sublist ll (toLowerCase js a)) \<or>
     (i_labelText input \<noteq> [] \<and> sublist ll (toLowerCase js (i_labelText input)))"
  by (auto simp: matches_def attr_matches_def includes_js_sublist split: option.splits)

lemma preferred_iff:
  "preferred ll input \<longleftrightarrow>
     (sublist ''password'' ll \<and> i_type input = ''password'') \<or>
     ((sublist ''user'' ll \<or> sublist ''login'' ll \<or> sublist ''id'' ll) \<and>
      (i_type input = ''text'' \<or> i_type input = ''email''))"
  by (simp add: preferred_def wants_password_def wants_user_def includes_js_sublist)

text \<open>
  Claim C5, as amended.  On a page whose inputs that contain the label each have an id, a
  name or a placeholder to be addressed by, the input selected is, among the inputs that
  contain the label in document order, the first one that is of type password while the
  label contains \<open>password\<close>, or of type text or email while the label contains \<open>user\<close>,
  \<open>login\<close> or \<open>id\<close>; when there is none, it is the first input that contains the label.
  Without the restriction the loop computes this: the first such preferred input,
  whether or not it can be addressed, else the first input that contains the label and
  can be addressed.  An input contains the label when its placeholder, name, id,
  aria-label or label text, lower-cased, has the lower-cased label as a substring; it is
  addressed by its id, else its name, else its placeholder.  The tool reads the six
  attributes of every input of the page, fills the input so selected and reports that it
  typed; with no selection it reports that no input field was found.
\<close>

theorem typeByLabel_tie_break:
  "findSelector js label inputs =
     (case choice (toLowerCase js label)
             (filter (matches js (toLowerCase js label)) inputs) of
        None \<Rightarrow> None
      | Some input \<Rightarrow> selector_of input) \<and>
   (addressable js (toLowerCase js label) inputs \<longrightarrow>
    findSelector js label inputs =
      (case tie_break (toLowerCase js label)
              (filter (matches js (toLowerCase js label)) inputs) of
         None \<Rightarrow> None
       | Some input \<Rightarrow> selector_of input)) \<and>
   (getBrowser d w = Some (Inr (b, c, Obj p), w1) \<longrightarrow>
    d_elems d (hist w1 @ [EvalAll p ''input'']) = Inr els \<longrightarrow>
    typeByLabel js d label val w =
      (case findSelector js label (map describe_input els) of
         None \<Rightarrow>
           Some (Inr (fail_mark @ '' Could not find input field for: '' @ dq @ label @ dq),
                 w1\<lparr>hist := hist w1 @ [EvalAll p ''input'']\<rparr>)
       | Some selector \<Rightarrow>
           Some (Inr (case d_unit d (hist w1 @ [EvalAll p ''input'', Fill p selector val]) of
                        Inl e \<Rightarrow> typeByLabel_failed label @ e
                      | Inr _ \<Rightarrow> ok_mark @ '' Typed '' @ dq @ val @ dq @ '' into field: '' @
                                 dq @ label @ dq),
                 w1\<lparr>hist := hist w1 @ [EvalAll p ''input'', Fill p selector val]\<rparr>))) \<and>
   describe_input el =
     \<lparr>i_type = el_type el, i_placeholder = placeholder el, i_name = el_name el,
      i_id = el_id el, i_ariaLabel = ariaLabel el,
      i_labelText = (case labels el of None \<Rightarrow> [] | Some [] \<Rightarrow> [] | Some (l # _) \<Rightarrow> l)\<rparr> \<and>
   (matches js ll input \<longleftrightarrow>
     (i_placeholder input \<noteq> [] \<and> sublist ll (toLowerCase js (i_placeholder input))) \<or>
     (i_name input \<noteq> [] \<and> sublist ll (toLowerCase js (i_name input))) \<or>
     (i_id input \<noteq> [] \<and> sublist ll (toLowerCase js (i_id input))) \<or>
     (\<exists>a. i_ariaLabel input = Some a \<and> a \<noteq> [] \<and> sublist ll (toLowerCase js a)) \<or>
     (i_labelText input \<noteq> [] \<and> sublist ll (toLowerCase js (i_labelText input)))) \<and>
   (preferred ll input \<longleftrightarrow>
     (sublist ''password'' ll \<and> i_type input = ''password'') \<or>
     ((sublist ''user'' ll \<or> sublist ''login'' ll \<or> sublist ''id'' ll) \<and>
      (i_type input = ''text'' \<or> i_type input = ''email''))) \<and>
   selector_of input =
     (if i_id input \<noteq> [] then Some (''input#'' @ i_id input)
      else if i_name input \<noteq> [] then Some (''input[name='' @ [CHR 0x27] @ i_name input @
        [CHR 0x27] @ '']'')
      else if i_placeholder input \<noteq> []
        then Some (''input[placeholder='' @ [CHR 0x27] @ i_placeholder input @ [CHR 0x27] @ '']'')
      else None)"
proof -
  have "selector_of input =
     (if i_id input \<noteq> [] then Some (''input#'' @ i_id input)
      else if i_name input \<noteq> [] then Some (''input[name='' @ [CHR 0x27] @ i_name input @
        [CHR 0x27] @ '']'')
      else if i_placeholder input \<noteq> []
        then Some (''input[placeholder='' @ [CHR 0x27] @ i_placeholder input @ [CHR 0x27] @ '']'')
      else None)"
    by (simp add: selector_of_def sq_def)
  moreover have "describe_input el =
     \<lparr>i_type = el_type el, i_placeholder = placeholder el, i_name = el_name el,
      i_id = el_id el, i_ariaLabel = ariaLabel el,
      i_labelText = (case labels el of None \<Rightarrow> [] | Some [] \<Rightarrow> [] | Some (l # _) \<Rightarrow> l)\<rparr>"
    by (simp add: describe_input_def)
  ultimately show ?thesis
    using findSelector_choice [of js label inputs] findSelector_tie_break [of js label inputs]
      typeByLabel_eq [of d w b c p w1 els js label val] matches_iff [of js ll input]
      preferred_iff [of ll input]
    by blast
qed

theorem typeByLabel_tie_break_witness:
  "addressable ascii_lib (toLowerCase ascii_lib ''Password'')
     [named_input ''text'' ''password_hint'', named_input ''password'' ''password''] \<and>
   findSelector ascii_lib ''Password''
     [named_input ''text'' ''password_hint'', named_input ''password'' ''password''] =
   selector_of (named_input ''password'' ''password'') \<and>
   getBrowser login_page fresh = Some (Inr (Obj 1, Obj 2, Obj 3), launched) \<and>
   d_elems login_page (hist launched @ [EvalAll 3 ''input'']) =
     Inr [field ''text'' ''password_hint'', field ''password'' ''password''] \<and>
   typeByLabel ascii_lib login_page ''Password'' ''secret'' fresh =
     Some (Inr (ok_mark @ '' Typed '' @ dq @ ''secret'' @ dq @ '' into field: '' @
                dq @ ''Password'' @ dq),
           launched\<lparr>hist := hist launched @
             [EvalAll 3 ''input'', Fill 3 (''input[name='' @ sq @ ''password'' @ sq @ '']'')
                ''secret'']\<rparr>)"
proof -
  note inst = typeByLabel_tie_break [of ascii_lib "''Password''"
      "[named_input ''text'' ''password_hint'', named_input ''password'' ''password'']"
      login_page fresh "Obj 1" "Obj 2" 3 launched
      "[field ''text'' ''password_hint'', field ''password'' ''password'']" "''secret''"]
  have a: "addressable ascii_lib (toLowerCase ascii_lib ''Password'')
     [named_input ''text'' ''password_hint'', named_input ''password'' ''password'']"
    by code_simp
  have g: "getBrowser login_page fresh = Some (Inr (Obj 1, Obj 2, Obj 3), launched)"
    by code_simp
  have els: "d_elems login_page (hist launched @ [EvalAll 3 ''input'']) =
      Inr [field ''text'' ''password_hint'', field ''password'' ''password'']"
    by (simp add: login_page_def quiet_def)
  have t: "(case tie_break (toLowerCase ascii_lib ''Password'')
           (filter (matches ascii_lib (toLowerCase ascii_lib ''Password''))
              [named_input ''text'' ''password_hint'', named_input ''password'' ''password'']) of
          None \<Rightarrow> None | Some input \<Rightarrow> selector_of input) =
        selector_of (named_input ''password'' ''password'')"
    by code_simp
  from inst a
  have f: "findSelector ascii_lib ''Password''
     [named_input ''text'' ''password_hint'', named_input ''password'' ''password''] =
     (case tie_break (toLowerCase ascii_lib ''Password'')
           (filter (matches ascii_lib (toLowerCase ascii_lib ''Password''))
              [named_input ''text'' ''password_hint'', named_input ''password'' ''password'']) of
          None \<Rightarrow> None | Some input \<Rightarrow> selector_of input)"
    by blast
  have e: "((case findSelector ascii_lib ''Password''
               (map describe_input
                  [field ''text'' ''password_hint'', field ''password'' ''password'']) of
         None \<Rightarrow>
           Some (Inr (fail_mark @ '' Could not find input field for: '' @ dq @ ''Password'' @ dq),
                 launched\<lparr>hist := hist launched @ [EvalAll 3 ''input'']\<rparr>)
       | Some selector \<Rightarrow>
           Some (Inr (case d_unit login_page
                             (hist launched @ [EvalAll 3 ''input'', Fill 3 selector ''secret'']) of
                        Inl e \<Rightarrow> typeByLabel_failed ''Password'' @ e
                      | Inr _ \<Rightarrow> ok_mark @ '' Typed '' @ dq @ ''secret'' @ dq @
                                 '' into field: '' @ dq @ ''Password'' @ dq),
                 launched\<lparr>hist := hist launched @
                   [EvalAll 3 ''input'', Fill 3 selector ''secret'']\<rparr>))
       :: ((err + string) \<times> world) option) =
     Some (Inr (ok_mark @ '' Typed '' @ dq @ ''secret'' @ dq @ '' into field: '' @
                dq @ ''Password'' @ dq),
           launched\<lparr>hist := hist launched @
             [EvalAll 3 ''input'', Fill 3 (''input[name='' @ sq @ ''password'' @ sq @ '']'')
                ''secret'']\<rparr>)"
    by code_simp
  from inst g els
  have "typeByLabel ascii_lib login_page ''Password'' ''secret'' fresh =
      (case findSelector ascii_lib ''Password''
               (map describe_input
                  [field ''text'' ''password_hint'', field ''password'' ''password'']) of
         None \<Rightarrow>
           Some (Inr (fail_mark @ '' Could not find input field for: '' @ dq @ ''Password'' @ dq),
                 launched\<lparr>hist := hist launched @ [EvalAll 3 ''input'']\<rparr>)
       | Some selector \<Rightarrow>
           Some (Inr (case d_unit login_page
                             (hist launched @ [EvalAll 3 ''input'', Fill 3 selector ''secret'']) of
                        Inl e \<Rightarrow> typeByLabel_failed ''Password'' @ e
                      | Inr _ \<Rightarrow> ok_mark @ '' Typed '' @ dq @ ''secret'' @ dq @
                                 '' into field: '' @ dq @ ''Password'' @ dq),
                 launched\<lparr>hist := hist launched @
                   [EvalAll 3 ''input'', Fill 3 selector ''secret'']\<rparr>))"
    by blast
  with e have r: "typeByLabel ascii_lib login_page ''Password'' ''secret'' fresh =
     Some (Inr (ok_mark @ '' Typed '' @ dq @ ''secret'' @ dq @ '' into field: '' @
                dq @ ''Password'' @ dq),
           launched\<lparr>hist := hist launched @
             [EvalAll 3 ''input'', Fill 3 (''input[name='' @ sq @ ''password'' @ sq @ '']'')
                ''secret'']\<rparr>)"
    by (rule trans [rotated])
  from f t have "findSelector ascii_lib ''Password''
     [named_input ''text'' ''password_hint'', named_input ''password'' ''password''] =
     selector_of (named_input ''password'' ''password'')"
    by (rule trans)
  with a g els r show ?thesis
    by blast
qed

text \<open>
  Claim C5 as stated fails: the label \<open>user password\<close> contains \<open>password\<close>, both inputs
  contain the label and the second is of type password, yet the first, of type text, is
  selected.
\<close>

theorem label_with_two_keywords_selects_text:
  "matches ascii_lib (toLowerCase ascii_lib ''user password'') (named_input ''text'' ''user password hint'') \<and>
   matches ascii_lib (toLowerCase ascii_lib ''user password'') (named_input ''password'' ''user password'') \<and>
   includes_js (toLowerCase ascii_lib ''user password'') ''password'' \<and>
   i_type (named_input ''password'' ''user password'') = ''password'' \<and>
   i_type (named_input ''text'' ''user password hint'') = ''text'' \<and>
   findSelector ascii_lib ''user password''
     [named_input ''text'' ''user password hint'', named_input ''password'' ''user password''] =
   selector_of (named_input ''text'' ''user password hint'') \<and>
   selector_of (named_input ''text'' ''user password hint'') \<noteq>
   selector_of (named_input ''password'' ''user password'')"
  by code_simp

text \<open>
  A preferred input without id, name and placeholder has no selector: nothing is found,
  although another input matches and could be addressed.
\<close>

lemma unaddressable_input_is_not_found:
  "matches ascii_lib (toLowerCase ascii_lib ''Password'') (named_input ''text'' ''password_hint'') \<and>
   matches ascii_lib (toLowerCase ascii_lib ''Password'') (labelled_input ''password'' ''Password'') \<and>
   selector_of (labelled_input ''password'' ''Password'') = None \<and>
   findSelector ascii_lib ''Password''
     [named_input ''text'' ''password_hint'', labelled_input ''password'' ''Password''] = None"
  by code_simp
section \<open>Every tool call returns and keeps the session whole\<close>

lemma acquiring_tool:
  assumes "\<And>hs. pure_io (f hs)" and "\<not> browserInitializing (sess w)"
  shows "\<exists>s w'. js_try (js_bind (getBrowser d) f) (\<lambda>e. js_return (g e)) w = Some (Inr s, w') \<and>
    idle w'"
  by (rule caught, rule after_acquire) fact+

lemma visitUrl_idle:
  "\<not> browserInitializing (sess w) \<Longrightarrow> \<exists>s w'. visitUrl d url w = Some (Inr s, w') \<and> idle w'"
  unfolding visitUrl_def visitUrl_body_def by (rule acquiring_tool) (intro io_intros)

lemma getPageInfo_idle:
  "\<not> browserInitializing (sess w) \<Longrightarrow> \<exists>s w'. getPageInfo js d w = Some (Inr s, w') \<and> idle w'"
  unfolding getPageInfo_def getPageInfo_body_def by (rule acquiring_tool) (intro io_intros)

lemma clickElement_idle:
  "\<not> browserInitializing (sess w) \<Longrightarrow>
   \<exists>s w'. clickElement d selector w = Some (Inr s, w') \<and> idle w'"
  unfolding clickElement_def clickElement_body_def by (rule acquiring_tool) (intro io_intros)

lemma clickByText_idle:
  "\<not> browserInitializing (sess w) \<Longrightarrow> \<exists>s w'. clickByText d text w = Some (Inr s, w') \<and> idle w'"
  unfolding clickByText_def clickByText_body_def by (rule acquiring_tool) (intro io_intros)

lemma typeInto_idle:
  "\<not> browserInitializing (sess w) \<Longrightarrow>
   \<exists>s w'. typeInto d selector val w = Some (Inr s, w') \<and> idle w'"
  unfolding typeInto_def typeInto_body_def by (rule acquiring_tool) (intro io_intros)

lemma typeByLabel_idle:
  "\<not> browserInitializing (sess w) \<Longrightarrow>
   \<exists>s w'. typeByLabel js d label val w = Some (Inr s, w') \<and> idle w'"
  unfolding typeByLabel_def typeByLabel_body_def by (rule acquiring_tool) (intro io_intros)

lemma submitForm_idle:
  "\<not> browserInitializing (sess w) \<Longrightarrow>
   \<exists>s w'. submitForm js d buttonText w = Some (Inr s, w') \<and> idle w'"
  unfolding submitForm_def submitForm_body_def by (rule acquiring_tool) (intro io_intros)

lemma takeScreenshot_idle:
  "\<not> browserInitializing (sess w) \<Longrightarrow>
   \<exists>s w'. takeScreenshot d filename w = Some (Inr s, w') \<and> idle w'"
  unfolding takeScreenshot_def takeScreenshot_body_def by (rule acquiring_tool) (intro io_intros)

lemma openBrowser_idle:
  assumes "\<not> browserInitializing (sess w)"
  shows "\<exists>s w'. openBrowser d w = Some (Inr s, w') \<and> idle w'"
proof (cases "ready d w")
  case True
  with assms show ?thesis
    by (auto simp: openBrowser_def openBrowser_body_def js_try_def js_bind_def is_ready_eq
        js_return_def idle_def consistent_def dest: ready_populated)
next
  case False
  have "\<exists>s w'. js_try (js_bind (getBrowser d)
          (\<lambda>_. js_return (ok_mark @ '' Browser opened successfully'')))
          (\<lambda>e. js_return (openBrowser_failed @ e)) (probed w) = Some (Inr s, w') \<and> idle w'"
    using assms by (intro acquiring_tool io_intros) simp
  with False show ?thesis
    by (auto simp: openBrowser_def openBrowser_body_def js_try_def js_bind_def is_ready_eq)
qed

lemma checkBrowserStatus_step:
  "\<exists>s w'. checkBrowserStatus d w = Some (Inr s, w') \<and> sess w' = sess w"
  using checkBrowserStatus_result [of d w] by auto

lemma closeBrowserTool_step:
  "\<exists>s w'. closeBrowserTool d w = Some (Inr s, w') \<and>
     (\<not> browserInitializing (sess w) \<longrightarrow> \<not> browserInitializing (sess w')) \<and>
     (consistent (sess w) \<longrightarrow> no_handles (sess w'))"
  by (cases "browser (sess w)")
     (auto simp: closeBrowserTool_def closeBrowserTool_body_def js_try_def js_bind_def
       closeBrowser_eq js_return_def released_def reset_handles_def no_handles_def
       consistent_def populated_def)

lemma execute_step:
  assumes "\<not> browserInitializing (sess w)"
  shows "\<exists>s w'. execute js d t w = Some (Inr s, w') \<and> \<not> browserInitializing (sess w') \<and>
     (consistent (sess w) \<longrightarrow> consistent (sess w'))"
proof (cases t)
  case Open_browser
  with openBrowser_idle [OF assms, of d] show ?thesis by (auto simp: idle_def)
next
  case Check_browser_status
  with checkBrowserStatus_step [of d w] assms show ?thesis by auto
next
  case (Visit_url url)
  with visitUrl_idle [OF assms, of d url] show ?thesis by (auto simp: idle_def)
next
  case Get_page_info
  with getPageInfo_idle [OF assms, of js d] show ?thesis by (auto simp: idle_def)
next
  case (Click_by_text str)
  with clickByText_idle [OF assms, of d str] show ?thesis by (auto simp: idle_def)
next
  case (Click_element selector)
  with clickElement_idle [OF assms, of d selector] show ?thesis by (auto simp: idle_def)
next
  case (Type_into selector val)
  with typeInto_idle [OF assms, of d selector val] show ?thesis by (auto simp: idle_def)
next
  case (Type_by_label label val)
  with typeByLabel_idle [OF assms, of js d label val] show ?thesis by (auto simp: idle_def)
next
  case (Take_screenshot filename)
  with takeScreenshot_idle [OF assms, of d filename] show ?thesis by (auto simp: idle_def)
next
  case (Submit_form buttonText)
  with submitForm_idle [OF assms, of js d buttonText] show ?thesis by (auto simp: idle_def)
next
  case Close_browser
  with closeBrowserTool_step [of d w] assms show ?thesis
    by (auto simp: consistent_def)
qed

lemma run_tools_idle:
  assumes "idle w"
  shows "\<exists>rs w'. run_tools js d ts w = Some (rs, w') \<and> idle w' \<and> length rs = length ts \<and>
    list_all no_fault rs"
  using assms
proof (induction ts arbitrary: w)
  case Nil
  then show ?case by simp
next
  case (Cons t ts)
  from Cons.prems have "\<not> browserInitializing (sess w)" "consistent (sess w)"
    by (simp_all add: idle_def)
  with execute_step [of w js d t] obtain s w1
    where step: "execute js d t w = Some (Inr s, w1)" "idle w1"
    by (auto simp: idle_def)
  from Cons.IH [OF step(2)] obtain rs w2
    where "run_tools js d ts w1 = Some (rs, w2)" "idle w2" "length rs = length ts"
      "list_all no_fault rs"
    by blast
  with step show ?case by simp
qed

lemma fresh_idle: "idle fresh"
  by (simp add: idle_def fresh_def initial_session_def consistent_def no_handles_def)

text \<open>
  Claim C2, as amended.  In every run of tool calls issued one after the other, none
  overlapping another, from a state in which the handles are all present or all absent
  and no acquisition is in flight (the initial state is one), every call returns a string
  and afterwards the three handles are again all present or all absent.  A failed launch
  leaves all three handles \<open>null\<close>, and a release leaves none of them.
\<close>

theorem session_all_or_nothing:
  assumes "idle w"
  shows "(\<exists>rs w'. run_tools js d ts w = Some (rs, w') \<and> consistent (sess w') \<and>
            \<not> browserInitializing (sess w') \<and> list_all no_fault rs) \<and>
         (getBrowser d w = Some (Inl e, w1) \<longrightarrow> nulled (sess w1)) \<and>
         (\<exists>w2. closeBrowser d w = Some (Inr (), w2) \<and> no_handles (sess w2))"
proof -
  from run_tools_idle [OF assms, of js d ts]
  have a: "\<exists>rs w'. run_tools js d ts w = Some (rs, w') \<and> consistent (sess w') \<and>
            \<not> browserInitializing (sess w') \<and> list_all no_fault rs"
    by (auto simp: idle_def)
  have b: "getBrowser d w = Some (Inl e, w1) \<longrightarrow> nulled (sess w1)"
    using getBrowser_post(3) by blast
  from assms have c: "\<exists>w2. closeBrowser d w = Some (Inr (), w2) \<and> no_handles (sess w2)"
    by (cases "browser (sess w)")
       (auto simp: closeBrowser_eq released_def reset_handles_def no_handles_def idle_def
         consistent_def populated_def)
  from a b c show ?thesis by blast
qed

theorem session_all_or_nothing_witness:
  "idle fresh \<and>
   map_option (consistent \<circ> sess \<circ> snd)
     (run_tools ascii_lib quiet [Open_browser, Visit_url ''http://x'', Close_browser] fresh) =
     Some True \<and>
   getBrowser no_display fresh = Some (Inl ''Failed to launch: missing display'', launch_failed) \<and>
   nulled (sess launch_failed)"
proof -
  have g: "getBrowser no_display fresh =
      Some (Inl ''Failed to launch: missing display'', launch_failed)"
    by code_simp
  note inst = session_all_or_nothing [OF fresh_idle, of ascii_lib quiet
      "[Open_browser, Visit_url ''http://x'', Close_browser]"]
  from inst obtain rs w'
    where "run_tools ascii_lib quiet [Open_browser, Visit_url ''http://x'', Close_browser] fresh =
      Some (rs, w')" "consistent (sess w')"
    by blast
  then have r: "map_option (consistent \<circ> sess \<circ> snd)
     (run_tools ascii_lib quiet [Open_browser, Visit_url ''http://x'', Close_browser] fresh) =
     Some True"
    by simp
  from session_all_or_nothing [OF fresh_idle, of ascii_lib no_display "[]"
      "''Failed to launch: missing display''" launch_failed] g
  have "nulled (sess launch_failed)"
    by blast
  with fresh_idle r g show ?thesis
    by blast
qed

text \<open>
  Claim C2 as stated fails for calls that overlap: while one call of \<open>getBrowser\<close> is
  between \<open>chromium.launch\<close> and \<open>browser.newContext\<close>, \<open>check_browser_status\<close> reads the
  variables, returns, and leaves the browser set with context and page unset.
\<close>

theorem status_check_returns_mid_launch:
  "session_after [Call 0, Settle 0 (Inr 1)] = Some mid_launch \<and>
   execute ascii_lib quiet Check_browser_status \<lparr>sess = mid_launch, hist = [Launch]\<rparr> =
     Some (Inr not_open, \<lparr>sess = mid_launch, hist = [Launch, IsConnected 1]\<rparr>) \<and>
   \<not> consistent mid_launch"
  by (simp add: session_after_def start_def initial_session_def ready_in_def mid_launch_def
      checkBrowserStatus_def checkBrowserStatus_body_def is_ready_eq ready_def probed_def
      js_try_def js_bind_def js_return_def consistent_def populated_def no_handles_def)

lemma execute_eq:
  "execute js d t = js_try (tool_body js d t) (\<lambda>e. js_return (tool_failed t @ e))"
  by (cases t)
     (simp_all add: openBrowser_def checkBrowserStatus_def visitUrl_def getPageInfo_def
       clickByText_def clickElement_def typeInto_def typeByLabel_def takeScreenshot_def
       submitForm_def closeBrowserTool_def)

lemma tool_failed_marked: "prefix fail_mark (tool_failed t)"
  by (cases t)
     (simp_all add: openBrowser_failed_def checkBrowserStatus_failed_def visitUrl_failed_def
       getPageInfo_failed_def clickByText_failed_def clickElement_failed_def typeInto_failed_def
       typeByLabel_failed_def takeScreenshot_failed_def submitForm_failed_def
       closeBrowserTool_failed_def)

text \<open>
  Claim C3, as amended.  No tool lets an exception out: whatever a tool call returns is a
  string, and a call made while no acquisition is in flight does return.  An error that
  leaves the body of a tool is turned into the tool's failure string, which starts with
  the failure marker and ends with the error's message.
\<close>

theorem tool_failure_boundary:
  "(execute js d t w = Some (r, w') \<longrightarrow> no_fault r) \<and>
   (\<not> browserInitializing (sess w) \<longrightarrow> (\<exists>s w2. execute js d t w = Some (Inr s, w2))) \<and>
   (tool_body js d t w = Some (Inl e, w') \<longrightarrow>
      execute js d t w = Some (Inr (tool_failed t @ e), w')) \<and>
   prefix fail_mark (tool_failed t)"
proof -
  have a: "execute js d t w = Some (r, w') \<longrightarrow> no_fault r"
    by (auto simp: execute_eq js_try_def js_return_def split: option.splits sum.splits)
  have b: "\<not> browserInitializing (sess w) \<longrightarrow> (\<exists>s w2. execute js d t w = Some (Inr s, w2))"
    using execute_step [of w js d t] by blast
  have c: "tool_body js d t w = Some (Inl e, w') \<longrightarrow>
      execute js d t w = Some (Inr (tool_failed t @ e), w')"
    by (simp add: execute_eq js_try_def js_return_def)
  from a b c tool_failed_marked show ?thesis by blast
qed

theorem tool_failure_boundary_witness:
  "\<not> browserInitializing (sess fresh) \<and>
   tool_body ascii_lib (failing_on is_goto) (Visit_url ''http://x'') fresh =
     Some (Inl ''Target closed'', launched\<lparr>hist := hist launched @ [Goto 3 ''http://x'']\<rparr>) \<and>
   execute ascii_lib (failing_on is_goto) (Visit_url ''http://x'') fresh =
     Some (Inr (fail_mark @ '' Failed to visit http://x: Target closed''),
           launched\<lparr>hist := hist launched @ [Goto 3 ''http://x'']\<rparr>) \<and>
   no_fault (Inr (fail_mark @ '' Failed to visit http://x: Target closed''))"
proof -
  have clear: "\<not> browserInitializing (sess fresh)"
    by (simp add: fresh_def initial_session_def)
  have body: "tool_body ascii_lib (failing_on is_goto) (Visit_url ''http://x'') fresh =
     Some (Inl ''Target closed'', launched\<lparr>hist := hist launched @ [Goto 3 ''http://x'']\<rparr>)"
    by code_simp
  note inst = tool_failure_boundary [of ascii_lib "failing_on is_goto" "Visit_url ''http://x''"
      fresh _ "launched\<lparr>hist := hist launched @ [Goto 3 ''http://x'']\<rparr>" "''Target closed''"]
  from inst body have "execute ascii_lib (failing_on is_goto) (Visit_url ''http://x'') fresh =
     Some (Inr (tool_failed (Visit_url ''http://x'') @ ''Target closed''),
           launched\<lparr>hist := hist launched @ [Goto 3 ''http://x'']\<rparr>)"
    by blast
  then have ex: "execute ascii_lib (failing_on is_goto) (Visit_url ''http://x'') fresh =
     Some (Inr (fail_mark @ '' Failed to visit http://x: Target closed''),
           launched\<lparr>hist := hist launched @ [Goto 3 ''http://x'']\<rparr>)"
    by (simp add: visitUrl_failed_def)
  with clear body show ?thesis
    by simp
qed

text \<open>
  Claim C3 as stated fails: an error inside one of the inner guards is swallowed and not
  reported.  Here \<open>browser.close()\<close> throws and \<open>close_browser\<close> returns its success
  string.
\<close>

theorem close_failure_reported_as_success:
  "d_unit (failing_on is_browser_close) [PageClose 3, ContextClose 2, BrowserClose 1] =
     Inl ''Target closed'' \<and>
   execute ascii_lib (failing_on is_browser_close) Close_browser open_world =
     Some (Inr (ok_mark @ '' Browser closed successfully''),
       \<lparr>sess = \<lparr>browser = Null, context_h = Null, page = Null, browserInitializing = False\<rparr>,
        hist = [PageClose 3, ContextClose 2, BrowserClose 1]\<rparr>)"
  by code_simp
section \<open>The caps of the page information\<close>

lemma call_unit_first_ten: "call_unit (first_ten d) = call_unit d"
  by (intro ext) (simp add: call_unit_def first_ten_def)

lemma call_obj_first_ten: "call_obj (first_ten d) = call_obj d"
  by (intro ext) (simp add: call_obj_def first_ten_def)

lemma call_str_first_ten: "call_str (first_ten d) = call_str d"
  by (intro ext) (simp add: call_str_def first_ten_def)

lemma call_bool_first_ten: "call_bool (first_ten d) = call_bool d"
  by (intro ext) (simp add: call_bool_def first_ten_def)

lemma call_elems_first_ten:
  "call_elems (first_ten d) c = js_bind (call_elems d c) (\<lambda>es. js_return (take 10 es))"
  by (intro ext)
     (simp add: call_elems_def first_ten_def js_bind_def js_return_def Let_def split: sum.splits)

lemma is_ready_first_ten: "is_ready (first_ten d) = is_ready d"
  by (intro ext) (simp add: is_ready_def call_bool_first_ten split: handle.splits)

lemma close_stale_first_ten: "close_stale (first_ten d) = close_stale d"
  by (intro ext) (simp add: close_stale_def call_unit_first_ten split: handle.splits)

lemma launch_all_first_ten: "launch_all (first_ten d) = launch_all d"
  by (simp add: launch_all_def close_stale_first_ten call_unit_first_ten call_obj_first_ten)

lemma initialize_first_ten: "initialize (first_ten d) = initialize d"
  by (simp add: initialize_def launch_all_first_ten)

lemma getBrowser_first_ten: "getBrowser (first_ten d) = getBrowser d"
  unfolding getBrowser_def initialize_first_ten is_ready_first_ten ..

lemma on_obj_map:
  "js_bind (on_obj h (\<lambda>p. js_bind (m p) (\<lambda>x. js_return (g x)))) f =
   js_bind (on_obj h m) (\<lambda>x. f (g x))"
  by (intro ext, cases h)
     (simp_all add: on_obj_def js_bind_def js_return_def js_throw_def
       split: option.splits sum.splits)

lemma buttons_of_take: "buttons_of js (take 10 es) = buttons_of js es"
  by (simp add: buttons_of_def)

lemma links_of_take: "links_of js (take 10 es) = links_of js es"
  by (simp add: links_of_def)

lemma inputs_of_take: "inputs_of (take 10 es) = inputs_of es"
  by (simp add: inputs_of_def)

lemma page_info_take:
  "page_info js title url (take 10 bs) ls ins = page_info js title url bs ls ins"
  "page_info js title url bs (take 10 ls) ins = page_info js title url bs ls ins"
  "page_info js title url bs ls (take 10 ins) = page_info js title url bs ls ins"
  by (simp_all add: page_info_def buttons_of_take links_of_take inputs_of_take)

lemma getPageInfo_first_ten: "getPageInfo js (first_ten d) = getPageInfo js d"
  by (simp add: getPageInfo_def getPageInfo_body_def getBrowser_first_ten call_str_first_ten
      call_elems_first_ten on_obj_map page_info_take)

lemma filter_map_links:
  "filter (\<lambda>link. l_text link \<noteq> [] \<and> l_text link \<noteq> ''No text'') (map (link_of js) es) =
   map (\<lambda>el. \<lparr>l_text = trimmed_text js el, l_href = href el\<rparr>)
     (filter (\<lambda>el. trimmed_text js el \<noteq> [] \<and> trimmed_text js el \<noteq> ''No text'') es)"
  by (induction es) (auto simp: or_else_def link_of_def)

lemma links_of_first_ten:
  "links_of js ls =
     map (\<lambda>el. \<lparr>l_text = trimmed_text js el, l_href = href el\<rparr>)
       (filter (\<lambda>el. trimmed_text js el \<noteq> [] \<and> trimmed_text js el \<noteq> ''No text'')
          (take 10 ls))"
  unfolding links_of_def by (rule filter_map_links)

lemma length_links_of: "length (links_of js ls) \<le> 10"
proof -
  have "length (links_of js ls) \<le> length (take 10 ls)"
    unfolding links_of_def by (rule order_trans [OF length_filter_le]) simp
  then show ?thesis by simp
qed

lemma buttons_of_nth:
  assumes "i < min 10 (length bs)"
  shows "buttons_of js bs ! i =
     \<lparr>b_text = (if trimmed_text js (bs ! i) \<noteq> [] then trimmed_text js (bs ! i)
                else if el_value (bs ! i) \<noteq> [] then el_value (bs ! i) else ''No text''),
      b_type = toLowerCase js (tagName (bs ! i))\<rparr>"
  using assms by (simp add: buttons_of_def button_of_def or_else_def)

lemma inputs_of_nth:
  assumes "i < min 10 (length ins)"
  shows "inputs_of ins ! i =
     JObject [(''type'', JString (if el_type (ins ! i) \<noteq> [] then el_type (ins ! i) else ''text'')),
              (''placeholder'', JString (placeholder (ins ! i))),
              (''name'', JString (el_name (ins ! i))),
              (''id'', JString (el_id (ins ! i)))]"
  using assms by (simp add: inputs_of_def input_of_def or_else_def)

lemma getPageInfo_eq:
  assumes "getBrowser d w = Some (Inr (b, c, Obj p), wa)"
    and "d_str d (hist wa @ [Title p]) = Inr title"
    and "d_str d (hist wa @ [Title p, Url p]) = Inr url"
    and "d_elems d (hist wa @ [Title p, Url p, EvalAll p buttons_selector]) = Inr bs"
    and "d_elems d (hist wa @ [Title p, Url p, EvalAll p buttons_selector, EvalAll p ''a'']) =
           Inr ls"
    and "d_elems d (hist wa @ [Title p, Url p, EvalAll p buttons_selector, EvalAll p ''a'',
           EvalAll p ''input, textarea'']) = Inr ins"
  shows "getPageInfo js d w =
     Some (Inr (doc_mark @ '' Page Info:'' @ [CHR 0x0A] @
                ''Title: '' @ title @ [CHR 0x0A] @
                ''URL: '' @ url @ [CHR 0x0A] @
                ''Buttons: '' @
                  stringify js (JArray (map (\<lambda>x. JObject [(''text'', JString (b_text x)),
                    (''type'', JString (b_type x))]) (buttons_of js bs))) @ [CHR 0x0A] @
                ''Links: '' @
                  stringify js (JArray (map (\<lambda>x. JObject [(''text'', JString (l_text x)),
                    (''href'', JString (l_href x))]) (links_of js ls))) @ [CHR 0x0A] @
                ''Inputs: '' @ stringify js (JArray (inputs_of ins))),
           wa\<lparr>hist := hist wa @ [Title p, Url p, EvalAll p buttons_selector, EvalAll p ''a'',
                                 EvalAll p ''input, textarea'']\<rparr>)"
proof -
  have bj: "button_json = (\<lambda>x. JObject [(''text'', JString (b_text x)),
      (''type'', JString (b_type x))])"
    by (rule ext) (simp add: button_json_def)
  have lj: "link_json = (\<lambda>x. JObject [(''text'', JString (l_text x)),
      (''href'', JString (l_href x))])"
    by (rule ext) (simp add: link_json_def)
  from assms show ?thesis
    by (simp add: getPageInfo_def getPageInfo_body_def js_try_def js_bind_def on_obj_def
        call_str_def call_elems_def js_return_def Let_def page_info_def bj lj)
qed

text \<open>
  Claim C9.  Once the page is acquired and the driver has answered the title, the URL and
  the three queries, \<open>get_page_info\<close> returns the page-info string made of the title, the
  URL and the three lists.  The buttons listed are the first ten matches of the button
  query, one entry each, in document order; the inputs listed are the first ten matches
  of the input query, likewise; the links listed are those of the first ten anchors whose
  trimmed text is neither empty nor \<open>No text\<close>, in document order.  The tool returns the
  same on a page cut down to the first ten matches of every query, so elements beyond
  the first ten have no influence on the returned string.
\<close>

theorem getPageInfo_first_ten_only:
  "(getBrowser d w = Some (Inr (b, c, Obj p), wa) \<longrightarrow>
    d_str d (hist wa @ [Title p]) = Inr title \<longrightarrow>
    d_str d (hist wa @ [Title p, Url p]) = Inr url \<longrightarrow>
    d_elems d (hist wa @ [Title p, Url p, EvalAll p buttons_selector]) = Inr bs \<longrightarrow>
    d_elems d (hist wa @ [Title p, Url p, EvalAll p buttons_selector, EvalAll p ''a'']) =
      Inr ls \<longrightarrow>
    d_elems d (hist wa @ [Title p, Url p, EvalAll p buttons_selector, EvalAll p ''a'',
      EvalAll p ''input, textarea'']) = Inr ins \<longrightarrow>
    getPageInfo js d w =
      Some (Inr (doc_mark @ '' Page Info:'' @ [CHR 0x0A] @
                 ''Title: '' @ title @ [CHR 0x0A] @
                 ''URL: '' @ url @ [CHR 0x0A] @
                 ''Buttons: '' @
                   stringify js (JArray (map (\<lambda>x. JObject [(''text'', JString (b_text x)),
                     (''type'', JString (b_type x))]) (buttons_of js bs))) @ [CHR 0x0A] @
                 ''Links: '' @
                   stringify js (JArray (map (\<lambda>x. JObject [(''text'', JString (l_text x)),
                     (''href'', JString (l_href x))]) (links_of js ls))) @ [CHR 0x0A] @
                 ''Inputs: '' @ stringify js (JArray (inputs_of ins))),
            wa\<lparr>hist := hist wa @ [Title p, Url p, EvalAll p buttons_selector, EvalAll p ''a'',
                                  EvalAll p ''input, textarea'']\<rparr>)) \<and>
   length (buttons_of js bs) = min 10 (length bs) \<and>
   (\<forall>i < min 10 (length bs).
      buttons_of js bs ! i =
        \<lparr>b_text = (if trimmed_text js (bs ! i) \<noteq> [] then trimmed_text js (bs ! i)
                   else if el_value (bs ! i) \<noteq> [] then el_value (bs ! i) else ''No text''),
         b_type = toLowerCase js (tagName (bs ! i))\<rparr>) \<and>
   length (inputs_of ins) = min 10 (length ins) \<and>
   (\<forall>i < min 10 (length ins).
      inputs_of ins ! i =
        JObject [(''type'', JString (if el_type (ins ! i) \<noteq> [] then el_type (ins ! i)
                                    else ''text'')),
                 (''placeholder'', JString (placeholder (ins ! i))),
                 (''name'', JString (el_name (ins ! i))),
                 (''id'', JString (el_id (ins ! i)))]) \<and>
   links_of js ls =
     map (\<lambda>el. \<lparr>l_text = trimmed_text js el, l_href = href el\<rparr>)
       (filter (\<lambda>el. trimmed_text js el \<noteq> [] \<and> trimmed_text js el \<noteq> ''No text'')
          (take 10 ls)) \<and>
   length (links_of js ls) \<le> 10 \<and>
   trimmed_text js el = (case textContent el of None \<Rightarrow> [] | Some t \<Rightarrow> trim js t) \<and>
   buttons_of js bs = buttons_of js (take 10 bs) \<and>
   inputs_of ins = inputs_of (take 10 ins) \<and>
   getPageInfo js (first_ten d) w = getPageInfo js d w"
proof -
  have "length (buttons_of js bs) = min 10 (length bs)"
    "length (inputs_of ins) = min 10 (length ins)"
    by (simp_all add: buttons_of_def inputs_of_def min.commute)
  moreover have "trimmed_text js el = (case textContent el of None \<Rightarrow> [] | Some t \<Rightarrow> trim js t)"
    by (simp add: trimmed_text_def)
  ultimately show ?thesis
    using getPageInfo_eq [of d w b c p wa title url bs ls ins js]
      buttons_of_nth [of _ bs js] inputs_of_nth [of _ ins]
      links_of_first_ten [of js ls] length_links_of [of js ls]
    by (simp add: getPageInfo_first_ten buttons_of_take inputs_of_take)
qed

theorem getPageInfo_first_ten_only_witness:
  "getBrowser crowded fresh = Some (Inr (Obj 1, Obj 2, Obj 3), launched) \<and>
   d_elems crowded (hist launched @ [Title 3, Url 3, EvalAll 3 buttons_selector,
     EvalAll 3 ''a'']) = Inr (replicate 12 anchor) \<and>
   getPageInfo ascii_lib crowded fresh =
     Some (Inr (doc_mark @ '' Page Info:'' @ [CHR 0x0A] @
                ''Title: Example'' @ [CHR 0x0A] @
                ''URL: Example'' @ [CHR 0x0A] @
                ''Buttons: ['' @ concat (replicate 10 ''{text:Next,type:a,},'') @ '']'' @ [CHR 0x0A] @
                ''Links: ['' @ concat (replicate 10 ''{text:Next,href:/next,},'') @ '']'' @ [CHR 0x0A] @
                ''Inputs: ['' @
                  concat (replicate 10 ''{type:text,placeholder:,name:,id:,},'') @ '']''),
           launched\<lparr>hist := hist launched @ [Title 3, Url 3, EvalAll 3 buttons_selector,
             EvalAll 3 ''a'', EvalAll 3 ''input, textarea'']\<rparr>) \<and>
   getPageInfo ascii_lib (first_ten crowded) fresh = getPageInfo ascii_lib crowded fresh \<and>
   links_of ascii_lib (replicate 12 anchor) =
     replicate 10 \<lparr>l_text = ''Next'', l_href = ''/next''\<rparr>"
proof -
  have g: "getBrowser crowded fresh = Some (Inr (Obj 1, Obj 2, Obj 3), launched)"
    by code_simp
  have t: "d_str crowded (hist launched @ [Title 3]) = Inr ''Example''"
    and u: "d_str crowded (hist launched @ [Title 3, Url 3]) = Inr ''Example''"
    and bs: "d_elems crowded (hist launched @ [Title 3, Url 3, EvalAll 3 buttons_selector]) =
      Inr (replicate 12 anchor)"
    and ls: "d_elems crowded (hist launched @ [Title 3, Url 3, EvalAll 3 buttons_selector,
      EvalAll 3 ''a'']) = Inr (replicate 12 anchor)"
    and ins: "d_elems crowded (hist launched @ [Title 3, Url 3, EvalAll 3 buttons_selector,
      EvalAll 3 ''a'', EvalAll 3 ''input, textarea'']) = Inr (replicate 12 anchor)"
    by (simp_all add: crowded_def quiet_def)
  note inst = getPageInfo_first_ten_only [of crowded fresh "Obj 1" "Obj 2" 3 launched
      "''Example''" "''Example''" "replicate 12 anchor" "replicate 12 anchor"
      "replicate 12 anchor" ascii_lib]
  from inst g t u bs ls ins
  have r: "getPageInfo ascii_lib crowded fresh =
      Some (Inr (doc_mark @ '' Page Info:'' @ [CHR 0x0A] @
                 ''Title: '' @ ''Example'' @ [CHR 0x0A] @
                 ''URL: '' @ ''Example'' @ [CHR 0x0A] @
                 ''Buttons: '' @
                   stringify ascii_lib (JArray (map (\<lambda>x. JObject [(''text'', JString (b_text x)),
                     (''type'', JString (b_type x))])
                     (buttons_of ascii_lib (replicate 12 anchor)))) @ [CHR 0x0A] @
                 ''Links: '' @
                   stringify ascii_lib (JArray (map (\<lambda>x. JObject [(''text'', JString (l_text x)),
                     (''href'', JString (l_href x))])
                     (links_of ascii_lib (replicate 12 anchor)))) @ [CHR 0x0A] @
                 ''Inputs: '' @ stringify ascii_lib (JArray (inputs_of (replicate 12 anchor)))),
            launched\<lparr>hist := hist launched @ [Title 3, Url 3, EvalAll 3 buttons_selector,
              EvalAll 3 ''a'', EvalAll 3 ''input, textarea'']\<rparr>)"
    by blast
  from inst have same: "getPageInfo ascii_lib (first_ten crowded) fresh =
      getPageInfo ascii_lib crowded fresh"
    by blast
  have links: "links_of ascii_lib (replicate 12 anchor) =
      replicate 10 \<lparr>l_text = ''Next'', l_href = ''/next''\<rparr>"
    by code_simp
  have counts: "stringify ascii_lib (JArray (map (\<lambda>x. JObject [(''text'', JString (b_text x)),
        (''type'', JString (b_type x))]) (buttons_of ascii_lib (replicate 12 anchor)))) =
        ''['' @ concat (replicate 10 ''{text:Next,type:a,},'') @ '']''"
      "stringify ascii_lib (JArray (map (\<lambda>x. JObject [(''text'', JString (l_text x)),
        (''href'', JString (l_href x))]) (links_of ascii_lib (replicate 12 anchor)))) =
        ''['' @ concat (replicate 10 ''{text:Next,href:/next,},'') @ '']''"
      "stringify ascii_lib (JArray (inputs_of (replicate 12 anchor))) = ''['' @
          concat (replicate 10 ''{type:text,placeholder:,name:,id:,},'') @ '']''"
    by code_simp+
  from r have "getPageInfo ascii_lib crowded fresh =
     Some (Inr (doc_mark @ '' Page Info:'' @ [CHR 0x0A] @
                ''Title: Example'' @ [CHR 0x0A] @
                ''URL: Example'' @ [CHR 0x0A] @
                ''Buttons: ['' @ concat (replicate 10 ''{text:Next,type:a,},'') @ '']'' @ [CHR 0x0A] @
                ''Links: ['' @ concat (replicate 10 ''{text:Next,href:/next,},'') @ '']'' @ [CHR 0x0A] @
                ''Inputs: ['' @
                  concat (replicate 10 ''{type:text,placeholder:,name:,id:,},'') @ '']''),
           launched\<lparr>hist := hist launched @ [Title 3, Url 3, EvalAll 3 buttons_selector,
             EvalAll 3 ''a'', EvalAll 3 ''input, textarea'']\<rparr>)"
    unfolding counts by simp
  with g ls same links show ?thesis
    by blast
qed
section \<open>One launch for overlapping acquisitions\<close>

lemma exclusive_start: "exclusive start"
  by (simp add: exclusive_def start_def initial_session_def)

lemma once_start: "once start"
  by (simp add: once_def start_def initial_session_def no_handles_def)

lemma exclusive_enter:
  assumes "exclusive s" and "\<not> browserInitializing (shared s)" and "in_section t"
    and "browserInitializing sh"
  shows "exclusive (s\<lparr>shared := sh, tasks := (tasks s)(i := t)\<rparr>)"
proof -
  from assms(1,2) have none: "\<And>j. \<not> in_section (tasks s j)"
    by (auto simp: exclusive_def)
  with assms(3,4) show ?thesis
    by (auto simp: exclusive_def)
qed

lemma exclusive_stay:
  assumes "exclusive s" and "in_section (tasks s i)" and "in_section t"
    and "browserInitializing sh"
  shows "exclusive (s\<lparr>shared := sh, tasks := (tasks s)(i := t), launches := n\<rparr>)"
proof -
  from assms(1,2) have only: "\<And>j. in_section (tasks s j) \<Longrightarrow> j = i"
    by (auto simp: exclusive_def)
  with assms(3,4) show ?thesis
    by (auto simp: exclusive_def)
qed

lemma exclusive_leave:
  assumes "exclusive s" and "in_section (tasks s i)" and "\<not> in_section t"
    and "\<not> browserInitializing sh"
  shows "exclusive (s\<lparr>shared := sh, tasks := (tasks s)(i := t)\<rparr>)"
proof -
  from assms(1,2) have only: "\<And>j. in_section (tasks s j) \<Longrightarrow> j = i"
    by (auto simp: exclusive_def)
  with assms(3,4) show ?thesis
    by (auto simp: exclusive_def)
qed

lemma exclusive_move:
  assumes "exclusive s" and "\<not> in_section (tasks s i)" and "\<not> in_section t"
  shows "exclusive (s\<lparr>tasks := (tasks s)(i := t)\<rparr>)"
proof -
  have "(\<exists>j. in_section (((tasks s)(i := t)) j)) = (\<exists>j. in_section (tasks s j))"
    using assms(2,3) by (metis fun_upd_apply)
  moreover have "\<And>j. in_section (((tasks s)(i := t)) j) \<Longrightarrow> in_section (tasks s j)"
    using assms(3) by (simp split: if_splits)
  ultimately show ?thesis
    using assms(1) unfolding exclusive_def by (simp del: fun_upd_apply)
qed

lemma fire_exclusive:
  assumes "exclusive s" and "fire e s = Some s'"
  shows "exclusive s'"
proof (cases e)
  case (Call i)
  show ?thesis
  proof (cases "tasks s i")
    case Called
    show ?thesis
    proof (cases "browserInitializing (shared s)")
      case True
      with assms Call Called show ?thesis
        by (auto intro: exclusive_move)
    next
      case False
      show ?thesis
      proof (cases "ready_in s")
        case True
        with assms Call Called False show ?thesis
          by (auto intro: exclusive_move)
      next
        case nr: False
        with assms Call Called False show ?thesis
          by (cases "browser (shared s)") (auto intro!: exclusive_enter)
      qed
    qed
  qed (use assms Call in auto)
next
  case (Wake i)
  show ?thesis
  proof (cases "tasks s i")
    case Sleeping
    with assms Wake show ?thesis
      by (cases "browserInitializing (shared s)") (auto intro: exclusive_move)
  qed (use assms Wake in auto)
next
  case (Settle i r)
  from assms(1) have flag: "in_section (tasks s i) \<Longrightarrow> browserInitializing (shared s)"
    by (auto simp: exclusive_def)
  show ?thesis
  proof (cases "tasks s i")
    case (Closing_stale b)
    with assms Settle exclusive_stay [of s i Launching "shared s" "launches s"] flag
    show ?thesis by auto
  next
    case Launching
    with assms Settle flag
      exclusive_stay [of s i "Opening_context b" "(shared s)\<lparr>browser := Obj b\<rparr>"
        "Suc (launches s)" for b]
      exclusive_leave [of s i "Threw e" "(reset_handles (shared s))\<lparr>browserInitializing := False\<rparr>" for e]
    show ?thesis by (cases r) (auto simp: failed_def)
  next
    case (Opening_context b)
    with assms Settle flag
      exclusive_stay [of s i "Opening_page c" "(shared s)\<lparr>context_h := Obj c\<rparr>"
        "launches s" for c]
      exclusive_leave [of s i "Threw e" "(reset_handles (shared s))\<lparr>browserInitializing := False\<rparr>" for e]
    show ?thesis by (cases r) (auto simp: failed_def)
  next
    case (Opening_page c)
    with assms Settle flag
      exclusive_leave [of s i "Returned hs" "(shared s)\<lparr>page := Obj p, browserInitializing := False\<rparr>" for hs p]
      exclusive_leave [of s i "Threw e" "(reset_handles (shared s))\<lparr>browserInitializing := False\<rparr>" for e]
    show ?thesis by (cases r) (auto simp: failed_def handles_of_def)
  qed (use assms Settle in auto)
next
  case (Crash b)
  with assms show ?thesis
    unfolding exclusive_def by auto
qed


lemma onceI:
  assumes "dead s = []" and "\<And>j. task_ok s (tasks s j)"
    and "\<not> browserInitializing (shared s) \<Longrightarrow>
         (launches s = 0 \<and> no_handles (shared s)) \<or> (launches s = 1 \<and> populated (shared s))"
  shows "once s"
  using assms unfolding once_def by blast

lemma once_task: "once s \<Longrightarrow> task_ok s (tasks s j)"
  by (simp add: once_def)

lemma once_ready: "once s \<Longrightarrow> ready_in s = populated (shared s)"
  by (auto simp: once_def ready_in_def populated_def truthy_iff split: handle.splits)

lemma task_ok_tasks [simp]: "task_ok (s\<lparr>tasks := x\<rparr>) t = task_ok s t"
  by (cases t) simp_all

lemma no_handles_not_populated: "no_handles sh \<Longrightarrow> \<not> populated sh"
  by (auto simp: no_handles_def populated_def)

lemma fire_once_call:
  assumes inv: "once s" and f: "fire (Call i) s = Some s'"
  shows "once s'"
proof (cases "tasks s i")
  case Called
  note ok = once_task [OF inv]
  from inv have d: "dead s = []" by (simp add: once_def)
  from inv have quiet: "\<not> browserInitializing (shared s) \<Longrightarrow>
      (launches s = 0 \<and> no_handles (shared s)) \<or> (launches s = 1 \<and> populated (shared s))"
    by (simp add: once_def)
  show ?thesis
  proof (cases "browserInitializing (shared s)")
    case True
    with f Called have s': "s' = s\<lparr>tasks := (tasks s)(i := Sleeping)\<rparr>" by simp
    show ?thesis
    proof (rule onceI)
      show "dead s' = []" using d s' by simp
      show "task_ok s' (tasks s' j)" for j
        using ok [of j] True by (cases "j = i") (simp_all add: s')
      show "(launches s' = 0 \<and> no_handles (shared s')) \<or>
          (launches s' = 1 \<and> populated (shared s'))" if "\<not> browserInitializing (shared s')"
        using that True s' by simp
    qed
  next
    case False
    show ?thesis
    proof (cases "populated (shared s)")
      case True
      with False quiet have one: "launches s = 1"
        by (auto dest: no_handles_not_populated)
      from f Called False True once_ready [OF inv]
      have s': "s' = s\<lparr>tasks := (tasks s)(i := Returned (handles_of (shared s)))\<rparr>" by simp
      show ?thesis
      proof (rule onceI)
        show "dead s' = []" using d s' by simp
        show "task_ok s' (tasks s' j)" for j
          using ok [of j] True False one by (cases "j = i") (simp_all add: s')
        show "(launches s' = 0 \<and> no_handles (shared s')) \<or>
            (launches s' = 1 \<and> populated (shared s'))" if "\<not> browserInitializing (shared s')"
          using quiet False s' by simp
      qed
    next
      case np: False
      with False quiet have zero: "launches s = 0" and none: "no_handles (shared s)"
        by auto
      from none have nb: "browser (shared s) = Undefined \<or> browser (shared s) = Null"
        by (cases "browser (shared s)") (simp_all add: no_handles_def)
      with f Called False np once_ready [OF inv]
      have s': "s' = s\<lparr>shared := (shared s)\<lparr>browserInitializing := True\<rparr>,
          tasks := (tasks s)(i := Launching)\<rparr>"
        by auto
      show ?thesis
      proof (rule onceI)
        show "dead s' = []" using d s' by simp
        show "task_ok s' (tasks s' j)" for j
        proof (cases "j = i")
          case True
          with zero show ?thesis by (simp add: s')
        next
          case ne: False
          with ok [of j] zero show ?thesis
            by (cases "tasks s j") (simp_all add: s')
        qed
        show "(launches s' = 0 \<and> no_handles (shared s')) \<or>
            (launches s' = 1 \<and> populated (shared s'))" if "\<not> browserInitializing (shared s')"
          using that s' by simp
      qed
    qed
  qed
qed (use f in auto)


lemma fire_once_wake:
  assumes inv: "once s" and f: "fire (Wake i) s = Some s'"
  shows "once s'"
proof (cases "tasks s i")
  case Sleeping
  note ok = once_task [OF inv]
  from inv have d: "dead s = []" by (simp add: once_def)
  from inv have quiet: "\<not> browserInitializing (shared s) \<Longrightarrow>
      (launches s = 0 \<and> no_handles (shared s)) \<or> (launches s = 1 \<and> populated (shared s))"
    by (simp add: once_def)
  show ?thesis
  proof (cases "browserInitializing (shared s)")
    case True
    with f Sleeping inv show ?thesis by simp
  next
    case False
    with ok [of i] Sleeping have one: "launches s = 1" by simp
    with quiet [OF False] have pop: "populated (shared s)" by simp
    from f Sleeping False
    have s': "s' = s\<lparr>tasks := (tasks s)(i := Returned (handles_of (shared s)))\<rparr>" by simp
    show ?thesis
    proof (rule onceI)
      show "dead s' = []" using d s' by simp
      show "task_ok s' (tasks s' j)" for j
        using ok [of j] pop False one by (cases "j = i") (simp_all add: s')
      show "(launches s' = 0 \<and> no_handles (shared s')) \<or>
          (launches s' = 1 \<and> populated (shared s'))" if "\<not> browserInitializing (shared s')"
        using quiet False s' by simp
    qed
  qed
qed (use f in auto)

lemma fire_once_settle:
  assumes inv: "once s" and ex: "exclusive s" and f: "fire (Settle i (Inr x)) s = Some s'"
  shows "once s'"
proof -
  note ok = once_task [OF inv]
  from inv have d: "dead s = []" by (simp add: once_def)
  have flag: "browserInitializing (shared s)" if "in_section (tasks s i)"
    using ex that by (auto simp: exclusive_def)
  have alone: "\<not> in_section (tasks s j)" if "in_section (tasks s i)" "j \<noteq> i" for j
    using ex that by (auto simp: exclusive_def)
  show ?thesis
  proof (cases "tasks s i")
    case (Closing_stale b)
    with ok [of i] show ?thesis by simp
  next
    case Launching
    with ok [of i] have zero: "launches s = 0" by simp
    from f Launching
    have s': "s' = s\<lparr>shared := (shared s)\<lparr>browser := Obj x\<rparr>,
        tasks := (tasks s)(i := Opening_context x), launches := Suc (launches s)\<rparr>"
      by simp
    from Launching have sec: "in_section (tasks s i)" by simp
    show ?thesis
    proof (rule onceI)
      show "dead s' = []" using d s' by simp
      show "task_ok s' (tasks s' j)" for j
      proof (cases "j = i")
        case True
        with zero show ?thesis by (simp add: s')
      next
        case False
        with ok [of j] zero alone [OF sec False] flag [OF sec] show ?thesis
          by (cases "tasks s j") (simp_all add: s')
      qed
      show "(launches s' = 0 \<and> no_handles (shared s')) \<or>
          (launches s' = 1 \<and> populated (shared s'))" if "\<not> browserInitializing (shared s')"
        using that flag [OF sec] s' by simp
    qed
  next
    case (Opening_context b)
    with ok [of i] have one: "launches s = 1" and br: "browser (shared s) = Obj b" by simp_all
    from f Opening_context
    have s': "s' = s\<lparr>shared := (shared s)\<lparr>context_h := Obj x\<rparr>,
        tasks := (tasks s)(i := Opening_page x)\<rparr>"
      by simp
    from Opening_context have sec: "in_section (tasks s i)" by simp
    show ?thesis
    proof (rule onceI)
      show "dead s' = []" using d s' by simp
      show "task_ok s' (tasks s' j)" for j
      proof (cases "j = i")
        case True
        with one br show ?thesis by (simp add: s')
      next
        case False
        with ok [of j] one alone [OF sec False] flag [OF sec] show ?thesis
          by (cases "tasks s j") (simp_all add: s')
      qed
      show "(launches s' = 0 \<and> no_handles (shared s')) \<or>
          (launches s' = 1 \<and> populated (shared s'))" if "\<not> browserInitializing (shared s')"
        using that flag [OF sec] s' by simp
    qed
  next
    case (Opening_page c)
    with ok [of i] have one: "launches s = 1" and br: "truthy (browser (shared s))"
      and cx: "context_h (shared s) = Obj c" by simp_all
    from f Opening_page
    have s': "s' = s\<lparr>shared := (shared s)\<lparr>page := Obj x, browserInitializing := False\<rparr>,
        tasks := (tasks s)(i := Returned (handles_of ((shared s)\<lparr>page := Obj x\<rparr>)))\<rparr>"
      by simp
    from Opening_page have sec: "in_section (tasks s i)" by simp
    have pop: "populated (shared s')"
      using br cx by (simp add: s' populated_def)
    show ?thesis
    proof (rule onceI)
      show "dead s' = []" using d s' by simp
      show "task_ok s' (tasks s' j)" for j
      proof (cases "j = i")
        case True
        with one pop show ?thesis by (simp add: s' handles_of_def)
      next
        case False
        with ok [of j] one alone [OF sec False] flag [OF sec] show ?thesis
          by (cases "tasks s j") (simp_all add: s')
      qed
      show "(launches s' = 0 \<and> no_handles (shared s')) \<or>
          (launches s' = 1 \<and> populated (shared s'))" if "\<not> browserInitializing (shared s')"
        using one pop by (simp add: s')
    qed
  qed (use f in auto)
qed

lemma fire_once:
  assumes "once s" and "exclusive s" and "fault_free e" and "fire e s = Some s'"
  shows "once s'"
proof (cases e)
  case (Call i)
  with assms show ?thesis by (auto intro: fire_once_call)
next
  case (Wake i)
  with assms show ?thesis by (auto intro: fire_once_wake)
next
  case (Settle i r)
  with assms show ?thesis by (cases r) (auto intro: fire_once_settle)
next
  case (Crash b)
  with assms show ?thesis by simp
qed

lemma run_exclusive:
  "exclusive s \<Longrightarrow> run_events es s = Some s' \<Longrightarrow> exclusive s'"
  by (induction es arbitrary: s) (auto split: option.splits dest: fire_exclusive)

lemma run_once:
  "once s \<Longrightarrow> exclusive s \<Longrightarrow> list_all fault_free es \<Longrightarrow> run_events es s = Some s' \<Longrightarrow>
   once s'"
proof (induction es arbitrary: s)
  case Nil
  then show ?case by simp
next
  case (Cons e es)
  from Cons.prems obtain s1 where s1: "fire e s = Some s1" "run_events es s1 = Some s'"
    by (auto split: option.splits)
  from Cons.prems s1 have "once s1" "exclusive s1"
    by (auto intro: fire_once fire_exclusive)
  with Cons.IH [of s1] Cons.prems(3) s1(2) show ?case by simp
qed

lemma wake_never_launches:
  assumes "fire (Wake i) s = Some s'"
  shows "launches s' = launches s \<and> shared s' = shared s \<and>
    (tasks s' i = Sleeping \<or> tasks s' i = Returned (handles_of (shared s)))"
  using assms by (cases "tasks s i") (auto split: if_splits)

text \<open>
  Claim C1, as amended.  For every schedule of \<open>getBrowser\<close> calls that overlap in any
  way, started on the empty session: at most one call is between setting and clearing
  the initializing flag at any time.  When no driver call fails and the browser stays
  connected, at most one browser is launched, and every caller that has returned has got
  the same three handles, all populated, exactly one browser having been launched.  A
  sleeping caller whose timer fires goes back to sleep while the flag is set, returns the
  handles of that moment once it is clear, and launches nothing.
\<close>

theorem one_launch_for_concurrent_acquires:
  assumes "run_events es start = Some s"
  shows "(\<forall>i j. in_section (tasks s i) \<longrightarrow> in_section (tasks s j) \<longrightarrow> i = j) \<and>
    (list_all fault_free es \<longrightarrow>
       launches s \<le> 1 \<and>
       (\<forall>i hs. tasks s i = Returned hs \<longrightarrow>
          launches s = 1 \<and> populated (shared s) \<and> hs = handles_of (shared s))) \<and>
    (\<forall>i s'. fire (Wake i) s = Some s' \<longrightarrow>
       launches s' = launches s \<and>
       (tasks s' i = Sleeping \<and> browserInitializing (shared s) \<or>
        tasks s' i = Returned (handles_of (shared s)) \<and> \<not> browserInitializing (shared s)))"
proof -
  from run_exclusive [OF exclusive_start assms] have ex: "exclusive s" .
  then have a: "\<forall>i j. in_section (tasks s i) \<longrightarrow> in_section (tasks s j) \<longrightarrow> i = j"
    by (simp add: exclusive_def)
  have b: "launches s \<le> 1 \<and>
       (\<forall>i hs. tasks s i = Returned hs \<longrightarrow>
          launches s = 1 \<and> populated (shared s) \<and> hs = handles_of (shared s))"
    if "list_all fault_free es"
  proof -
    from run_once [OF once_start exclusive_start that assms] have o: "once s" .
    have "launches s \<le> 1"
    proof (cases "browserInitializing (shared s)")
      case False
      with o show ?thesis by (auto simp: once_def)
    next
      case True
      with ex obtain i where i: "in_section (tasks s i)" by (auto simp: exclusive_def)
      with once_task [OF o, of i] show ?thesis by (cases "tasks s i") simp_all
    qed
    moreover have "launches s = 1 \<and> populated (shared s) \<and> hs = handles_of (shared s)"
      if "tasks s i = Returned hs" for i hs
      using once_task [OF o, of i] that by simp
    ultimately show ?thesis by blast
  qed
  have c: "launches s' = launches s \<and>
       (tasks s' i = Sleeping \<and> browserInitializing (shared s) \<or>
        tasks s' i = Returned (handles_of (shared s)) \<and> \<not> browserInitializing (shared s))"
    if "fire (Wake i) s = Some s'" for i s'
    using that by (cases "tasks s i") (auto split: if_splits)
  from a b c show ?thesis by blast
qed

theorem one_launch_for_concurrent_acquires_witness:
  "list_all fault_free three_callers \<and>
   launches_after three_callers = Some 1 \<and>
   task_after three_callers 0 = Some (Returned (Obj 1, Obj 2, Obj 3)) \<and>
   task_after three_callers 1 = Some (Returned (Obj 1, Obj 2, Obj 3)) \<and>
   task_after three_callers 2 = Some (Returned (Obj 1, Obj 2, Obj 3))"
proof -
  have ff: "list_all fault_free three_callers"
    by (simp add: three_callers_def)
  have "\<exists>s. run_events three_callers start = Some s \<and>
      tasks s 0 = Returned (Obj 1, Obj 2, Obj 3) \<and>
      tasks s 1 = Returned (Obj 1, Obj 2, Obj 3) \<and>
      tasks s 2 = Returned (Obj 1, Obj 2, Obj 3)"
    by (simp add: three_callers_def start_def initial_session_def ready_in_def handles_of_def)
  then obtain s where s: "run_events three_callers start = Some s"
      "tasks s 0 = Returned (Obj 1, Obj 2, Obj 3)"
      "tasks s 1 = Returned (Obj 1, Obj 2, Obj 3)"
      "tasks s 2 = Returned (Obj 1, Obj 2, Obj 3)"
    by blast
  from one_launch_for_concurrent_acquires [OF s(1)] ff s(2)
  have "launches s = 1"
    by blast
  with ff s show ?thesis
    by (simp add: launches_after_def task_after_def)
qed

text \<open>
  Claim C1 as stated fails: when the launch is rejected while a second caller waits, no
  browser has been launched, the first caller gets the error and the second one three
  \<open>null\<close> handles.
\<close>

theorem failed_launch_launches_nothing:
  "launches_after failed_launch = Some 0 \<and>
   task_after failed_launch 0 = Some (Threw ''Failed to launch'') \<and>
   task_after failed_launch 1 = Some (Returned (Null, Null, Null))"
  by (simp add: launches_after_def task_after_def failed_launch_def start_def
      initial_session_def ready_in_def handles_of_def failed_def reset_handles_def)
section \<open>Behaviour of the earlier entry point\<close>

text \<open>
  The properties above are those of the server with the initializing flag.  In
  \<open>BE/index.js\<close> a failed model call ends \<open>rewritePrompt\<close> with the error, a failed click
  leaves \<open>click_element\<close> as an exception, and a failed \<open>browser.close()\<close> leaves the
  handles in place.
\<close>

lemma rewritePrompt_index_propagates:
  "create p = Inl e \<Longrightarrow> rewritePrompt_index create p = Inl e"
  by (simp add: rewritePrompt_index_def)

lemma clickElement_index_throws:
  "clickElement_index (failing_on is_click) ''#go'' open_world =
     Some (Inl ''Target closed'', open_world\<lparr>hist := [Click 3 ''#go'']\<rparr>)"
  by code_simp

lemma closeBrowser_index_keeps_handles:
  "closeBrowser_index (failing_on is_browser_close) open_world =
     Some (Inl ''Target closed'', open_world\<lparr>hist := [BrowserClose 1]\<rparr>)"
  by code_simp

end
